theory Spec2Isabelle
  imports Complex_Main
begin

section \<open>Transmission-line formulas of pyems/calc.py\<close>

text \<open>
  The module holds four functions over floats. A float is read as the real number it
  denotes, or as one of the three special values of IEEE arithmetic. Arithmetic on
  finite numbers is exact: the model has no rounding, no overflow (so Python's \<open>**\<close>
  never raises \<open>OverflowError\<close>) and no underflow, and a single zero (the float
  \<open>+0.0\<close>). What the program does outside real arithmetic is written out:
  \<^item> a division of two Python floats by zero raises \<open>ZeroDivisionError\<close>;
  \<^item> \<open>raise ValueError\<close> is \<open>ValueError\<close>;
  \<^item> an operation with a \<open>numpy.float64\<close> operand raises nothing: a division by
    zero, \<open>np.log\<close> of a number that is not positive and \<open>np.sqrt\<close> of a negative
    number yield \<open>inf\<close>, \<open>-inf\<close> or \<open>nan\<close>, the program goes on computing with
    that value, and every comparison with \<open>nan\<close> is false.
\<close>

datatype error = ZeroDivisionError | ValueError | NonFinite

text \<open>Python's \<open>a / b\<close> on floats.\<close>

definition py_truediv :: "real \<Rightarrow> real \<Rightarrow> error + real" where
  "py_truediv a b = (if b = 0 then Inl ZeroDivisionError else Inr (a / b))"

subsection \<open>Arithmetic of numpy.float64\<close>

text \<open>The values of a \<open>float64\<close>: a finite number, \<open>inf\<close>, \<open>-inf\<close>, \<open>nan\<close>.\<close>

datatype double = Fin real | PInf | NInf | NaN

fun np_add :: "double \<Rightarrow> double \<Rightarrow> double" where
  "np_add (Fin x) (Fin y) = Fin (x + y)"
| "np_add NaN _ = NaN"
| "np_add _ NaN = NaN"
| "np_add PInf NInf = NaN"
| "np_add NInf PInf = NaN"
| "np_add PInf _ = PInf"
| "np_add _ PInf = PInf"
| "np_add NInf _ = NInf"
| "np_add _ NInf = NInf"

fun np_negative :: "double \<Rightarrow> double" where
  "np_negative (Fin x) = Fin (- x)"
| "np_negative PInf = NInf"
| "np_negative NInf = PInf"
| "np_negative NaN = NaN"

definition np_sub :: "double \<Rightarrow> double \<Rightarrow> double" where
  "np_sub a b = np_add a (np_negative b)"

text \<open>The product of an infinity and zero is \<open>nan\<close>.\<close>

fun np_mul :: "double \<Rightarrow> double \<Rightarrow> double" where
  "np_mul (Fin x) (Fin y) = Fin (x * y)"
| "np_mul NaN _ = NaN"
| "np_mul _ NaN = NaN"
| "np_mul (Fin x) PInf = (if x = 0 then NaN else if 0 < x then PInf else NInf)"
| "np_mul (Fin x) NInf = (if x = 0 then NaN else if 0 < x then NInf else PInf)"
| "np_mul PInf (Fin y) = (if y = 0 then NaN else if 0 < y then PInf else NInf)"
| "np_mul NInf (Fin y) = (if y = 0 then NaN else if 0 < y then NInf else PInf)"
| "np_mul PInf PInf = PInf"
| "np_mul NInf NInf = PInf"
| "np_mul PInf NInf = NInf"
| "np_mul NInf PInf = NInf"

text \<open>
  The quotient. A finite number divided by zero is an infinity of its sign, and
  \<open>0 / 0\<close> is \<open>nan\<close>; a finite number divided by an infinity is zero.
\<close>

fun np_div :: "double \<Rightarrow> double \<Rightarrow> double" where
  "np_div (Fin x) (Fin y) =
     (if y = 0 then (if x = 0 then NaN else if 0 < x then PInf else NInf)
      else Fin (x / y))"
| "np_div NaN _ = NaN"
| "np_div _ NaN = NaN"
| "np_div (Fin x) PInf = Fin 0"
| "np_div (Fin x) NInf = Fin 0"
| "np_div PInf (Fin y) = (if 0 \<le> y then PInf else NInf)"
| "np_div NInf (Fin y) = (if 0 \<le> y then NInf else PInf)"
| "np_div PInf PInf = NaN"
| "np_div PInf NInf = NaN"
| "np_div NInf PInf = NaN"
| "np_div NInf NInf = NaN"

text \<open>\<open>x ** 2\<close> on a \<open>float64\<close>.\<close>

definition np_square :: "double \<Rightarrow> double" where
  "np_square a = np_mul a a"

fun np_sqrt :: "double \<Rightarrow> double" where
  "np_sqrt (Fin x) = (if x < 0 then NaN else Fin (sqrt x))"
| "np_sqrt PInf = PInf"
| "np_sqrt NInf = NaN"
| "np_sqrt NaN = NaN"

fun np_log :: "double \<Rightarrow> double" where
  "np_log (Fin x) = (if x < 0 then NaN else if x = 0 then NInf else Fin (ln x))"
| "np_log PInf = PInf"
| "np_log NInf = NaN"
| "np_log NaN = NaN"

fun np_exp :: "double \<Rightarrow> double" where
  "np_exp (Fin x) = Fin (exp x)"
| "np_exp PInf = PInf"
| "np_exp NInf = Fin 0"
| "np_exp NaN = NaN"

fun np_absolute :: "double \<Rightarrow> double" where
  "np_absolute (Fin x) = Fin \<bar>x\<bar>"
| "np_absolute PInf = PInf"
| "np_absolute NInf = PInf"
| "np_absolute NaN = NaN"

text \<open>The comparisons \<open>a < b\<close>, \<open>a > b\<close> and \<open>a <= b\<close>: false when an operand is \<open>nan\<close>.\<close>

fun np_less :: "double \<Rightarrow> double \<Rightarrow> bool" where
  "np_less (Fin x) (Fin y) = (x < y)"
| "np_less NaN _ = False"
| "np_less _ NaN = False"
| "np_less _ NInf = False"
| "np_less NInf _ = True"
| "np_less PInf _ = False"
| "np_less _ PInf = True"

definition np_greater :: "double \<Rightarrow> double \<Rightarrow> bool" where
  "np_greater a b = np_less b a"

fun np_less_equal :: "double \<Rightarrow> double \<Rightarrow> bool" where
  "np_less_equal (Fin x) (Fin y) = (x \<le> y)"
| "np_less_equal NaN _ = False"
| "np_less_equal _ NaN = False"
| "np_less_equal NInf _ = True"
| "np_less_equal _ PInf = True"
| "np_less_equal _ NInf = False"
| "np_less_equal PInf _ = False"

subsection \<open>miter\<close>

text \<open>
  An argument of \<open>miter\<close> is a Python float (or int), or a \<open>numpy.float64\<close>, which
  is a subclass of \<open>float\<close> and is what the numpy functions and \<open>wheeler_z0_width\<close>
  return. The arguments are finite numbers. \<open>PyFloat 0\<close> and \<open>NpFloat64 0\<close> are the
  zero \<open>+0.0\<close> (or the int \<open>0\<close>); the float \<open>-0.0\<close>, which differs from it as a
  divisor of numpy, is \<open>PyNegZero\<close> or \<open>NpNegZero\<close>.
\<close>

datatype operand = PyFloat real | NpFloat64 real | PyNegZero | NpNegZero

fun num :: "operand \<Rightarrow> real" where
  "num (PyFloat x) = x"
| "num (NpFloat64 x) = x"
| "num PyNegZero = 0"
| "num NpNegZero = 0"

fun is_py :: "operand \<Rightarrow> bool" where
  "is_py (PyFloat x) = True"
| "is_py (NpFloat64 x) = False"
| "is_py PyNegZero = True"
| "is_py NpNegZero = False"

fun neg_zero :: "operand \<Rightarrow> bool" where
  "neg_zero (PyFloat x) = False"
| "neg_zero (NpFloat64 x) = False"
| "neg_zero PyNegZero = True"
| "neg_zero NpNegZero = True"

text \<open>
  \<open>a / b\<close>: the division of Python when both operands are Python floats, the division
  of numpy as soon as one of them is a \<open>float64\<close>. Python raises on either zero;
  numpy divides by \<open>-0.0\<close> with the opposite sign.
\<close>

definition truediv :: "operand \<Rightarrow> operand \<Rightarrow> error + double" where
  "truediv a b =
     (if is_py a \<and> is_py b then
        (case py_truediv (num a) (num b) of Inl e \<Rightarrow> Inl e | Inr q \<Rightarrow> Inr (Fin q))
      else if neg_zero b then Inr (np_negative (np_div (Fin (num a)) (Fin 0)))
      else Inr (np_div (Fin (num a)) (Fin (num b))))"

text \<open>
  \<open>c * a\<close> for a Python float \<open>c\<close>: the product has the type of \<open>a\<close>, and a
  product that is zero has the sign of its factors.
\<close>

fun scale :: "real \<Rightarrow> operand \<Rightarrow> operand" where
  "scale c (PyFloat a) = (if c * a = 0 \<and> (c < 0 \<or> a < 0) then PyNegZero else PyFloat (c * a))"
| "scale c (NpFloat64 a) =
     (if c * a = 0 \<and> (c < 0 \<or> a < 0) then NpNegZero else NpFloat64 (c * a))"
| "scale c PyNegZero = (if c < 0 then PyFloat 0 else PyNegZero)"
| "scale c NpNegZero = (if c < 0 then NpFloat64 0 else NpNegZero)"

text \<open>
  \<^verbatim>\<open>
  if trace_width / substrate_height < 0.25:
      raise ValueError(...)
  return 0.52 + (0.65 * np.exp(-(27 / 20) * trace_width / substrate_height))
  \<close>
  The division of the return statement has the divisor of the test and operands of the
  same types.
\<close>

definition miter :: "operand \<Rightarrow> operand \<Rightarrow> error + double" where
  "miter trace_width substrate_height =
     (case truediv trace_width substrate_height of
        Inl e \<Rightarrow> Inl e
      | Inr ratio \<Rightarrow>
          if np_less ratio (Fin 0.25) then Inl ValueError
          else
            (case truediv (scale (- (27 / 20)) trace_width) substrate_height of
               Inl e \<Rightarrow> Inl e
             | Inr x \<Rightarrow> Inr (np_add (Fin 0.52) (np_mul (Fin 0.65) (np_exp x)))))"

subsection \<open>coax_core_diameter\<close>

text \<open>
  \<^verbatim>\<open>
  return outer_diameter / np.power(10, impedance * np.sqrt(permittivity) / 138)
  \<close>
  \<open>np.sqrt\<close> of a negative permittivity is \<open>nan\<close>, and so is the result, which
  is the outcome \<open>NonFinite\<close> here. The power of ten is positive, so the division
  never has a zero divisor.
\<close>

definition coax_core_diameter :: "real \<Rightarrow> real \<Rightarrow> real \<Rightarrow> error + real" where
  "coax_core_diameter outer_diameter permittivity impedance =
     (if permittivity < 0 then Inl NonFinite
      else Inr (outer_diameter / (10 powr (impedance * sqrt permittivity / 138))))"

subsection \<open>wheeler_z0\<close>

text \<open>
  The body of \<open>wheeler_z0\<close> for a width that is a \<open>float64\<close>; \<open>t\<close>, \<open>er\<close> and
  \<open>h\<close> are Python floats. The operations between Python floats (\<open>1 / er\<close>,
  \<open>t / h\<close>, \<open>8 / er\<close> and the arithmetic on their results) are those of the reals;
  every operation that has the width, or a result of \<open>np.sqrt\<close> or \<open>np.log\<close>, among
  its operands is an operation of numpy.
\<close>

definition wheeler_zm :: "double \<Rightarrow> real \<Rightarrow> real \<Rightarrow> real \<Rightarrow> double" where
  "wheeler_zm w t er h =
     (let z0 = Fin 376.730313668;
          weff = np_add w
                   (np_mul (Fin (t * ((1 + (1 / er)) / (2 * pi))))
                      (np_log
                         (np_div (Fin (4 * exp 1))
                            (np_sqrt
                               (np_add (Fin ((t / h)\<^sup>2))
                                  (np_square
                                     (np_mul (Fin (1 / pi))
                                        (np_div (Fin 1)
                                           (np_add (np_div w (Fin t)) (Fin (11 / 10)))))))))));
          tmp1 = np_div (Fin (4 * h)) weff;
          tmp2 = Fin ((14 + (8 / er)) / 11)
      in np_mul (np_div z0 (np_mul (Fin (2 * pi)) (np_sqrt (Fin (2 * (1 + er))))))
           (np_log
              (np_add (Fin 1)
                 (np_mul tmp1
                    (np_add (np_mul tmp2 tmp1)
                       (np_sqrt
                          (np_add (np_square (np_mul tmp2 tmp1))
                             (Fin ((pi\<^sup>2) * ((1 + (1 / er)) / 2))))))))))"

text \<open>
  \<open>wheeler_z0\<close> on Python floats (the annotations of the signature, and what
  \<open>wheeler_z0_width\<close> passes before its interpolation loop): \<open>1 / er\<close>, \<open>t / h\<close>,
  \<open>w / t\<close> and \<open>1 / ((w / t) + (11 / 10))\<close> divide Python floats and raise
  \<open>ZeroDivisionError\<close> on a zero divisor; they are all evaluated while \<open>weff\<close> is
  computed. From \<open>np.sqrt\<close> on, the values are \<open>float64\<close> values, and the result is
  a \<open>float64\<close>, finite or not.
\<close>

definition wheeler_z0 :: "real \<Rightarrow> real \<Rightarrow> real \<Rightarrow> real \<Rightarrow> error + double" where
  "wheeler_z0 w t er h =
     (if er = 0 \<or> h = 0 \<or> t = 0 \<or> (w / t) + (11 / 10) = 0 then Inl ZeroDivisionError
      else Inr (wheeler_zm (Fin w) t er h))"

text \<open>
  \<open>wheeler_z0\<close> when the width is a \<open>float64\<close>, as in the call from the
  interpolation loop of \<open>wheeler_z0_width\<close>, where the width has been computed from
  impedances. \<open>w / t\<close> and \<open>1 / ((w / t) + (11 / 10))\<close> then have a \<open>float64\<close>
  operand, and a zero divisor gives \<open>inf\<close> or \<open>nan\<close> instead of an exception;
  \<open>1 / er\<close> and \<open>t / h\<close> still divide Python floats.
\<close>

definition wheeler_z0_f64 :: "double \<Rightarrow> real \<Rightarrow> real \<Rightarrow> real \<Rightarrow> error + double" where
  "wheeler_z0_f64 w t er h =
     (if er = 0 \<or> h = 0 then Inl ZeroDivisionError
      else Inr (wheeler_zm w t er h))"

subsection \<open>wheeler_z0_width\<close>

text \<open>
  \<^verbatim>\<open>
  while zlow < z0:
      wlow /= 10
      zlow = wheeler_z0(w=wlow, t=t, er=er, h=h)
  \<close>
  The loops of the source have no iteration bound, so each is a partial function:
  \<open>None\<close> is the loop that never ends. An exception of \<open>wheeler_z0\<close> ends the
  whole call. \<open>wlow\<close> is a Python float here, \<open>zlow\<close> a \<open>float64\<close>; the loop is
  left when \<open>zlow\<close> is \<open>nan\<close>.
\<close>

partial_function (option) low_loop ::
  "real \<Rightarrow> real \<Rightarrow> real \<Rightarrow> real \<Rightarrow> real \<Rightarrow> double \<Rightarrow> (error + real \<times> double) option" where
  "low_loop z0 t er h wlow zlow =
     (if np_less zlow (Fin z0) then
        (case wheeler_z0 (wlow / 10) t er h of
           Inl e \<Rightarrow> Some (Inl e)
         | Inr z \<Rightarrow> low_loop z0 t er h (wlow / 10) z)
      else Some (Inr (wlow, zlow)))"

text \<open>
  \<^verbatim>\<open>
  while zhigh > z0:
      whigh *= 10
      zhigh = wheeler_z0(w=whigh, t=t, er=er, h=h)
  \<close>
\<close>

partial_function (option) high_loop ::
  "real \<Rightarrow> real \<Rightarrow> real \<Rightarrow> real \<Rightarrow> real \<Rightarrow> double \<Rightarrow> (error + real \<times> double) option" where
  "high_loop z0 t er h whigh zhigh =
     (if np_greater zhigh (Fin z0) then
        (case wheeler_z0 (whigh * 10) t er h of
           Inl e \<Rightarrow> Some (Inl e)
         | Inr z \<Rightarrow> high_loop z0 t er h (whigh * 10) z)
      else Some (Inr (whigh, zhigh)))"

text \<open>The local variables of \<open>wheeler_z0_width\<close> that the interpolation loop updates.\<close>

record solver =
  width :: double
  zm :: double
  wlow :: double
  zlow :: double
  whigh :: double
  zhigh :: double

text \<open>
  The statements of \<open>wheeler_z0_width\<close> up to the interpolation loop: the impedance
  of the guess, then the two bracketing loops, and the state they leave.
  \<^verbatim>\<open>
  width = guess
  zm = wheeler_z0(w=width, t=t, er=er, h=h)
  wlow = width / 10
  zlow = wheeler_z0(w=wlow, t=t, er=er, h=h)
  while zlow < z0: ...
  whigh = width * 10
  zhigh = wheeler_z0(w=whigh, t=t, er=er, h=h)
  while zhigh > z0: ...
  \<close>
\<close>

definition bracket ::
  "real \<Rightarrow> real \<Rightarrow> real \<Rightarrow> real \<Rightarrow> real \<Rightarrow> (error + solver) option" where
  "bracket z0 t er h guess =
     (case wheeler_z0 guess t er h of
        Inl e \<Rightarrow> Some (Inl e)
      | Inr z \<Rightarrow>
          (case wheeler_z0 (guess / 10) t er h of
             Inl e \<Rightarrow> Some (Inl e)
           | Inr zl \<Rightarrow>
               (case low_loop z0 t er h (guess / 10) zl of
                  None \<Rightarrow> None
                | Some (Inl e) \<Rightarrow> Some (Inl e)
                | Some (Inr (wl, zl')) \<Rightarrow>
                    (case wheeler_z0 (guess * 10) t er h of
                       Inl e \<Rightarrow> Some (Inl e)
                     | Inr zh \<Rightarrow>
                         (case high_loop z0 t er h (guess * 10) zh of
                            None \<Rightarrow> None
                          | Some (Inl e) \<Rightarrow> Some (Inl e)
                          | Some (Inr (wh, zh')) \<Rightarrow>
                              Some (Inr \<lparr>width = Fin guess, zm = z,
                                         wlow = Fin wl, zlow = zl',
                                         whigh = Fin wh, zhigh = zh'\<rparr>))))))"

text \<open>
  The branch of the loop body: the slope \<open>m\<close> and the bracket end that is replaced
  by the current point.
  \<^verbatim>\<open>
  if zm > z0:
      m = (zhigh - zm) / (whigh - width)
      wlow = width
      zlow = zm
  else:
      m = (zm - zlow) / (width - wlow)
      whigh = width
      zhigh = zm
  \<close>
  The impedances are \<open>float64\<close> values, so the division is that of numpy.
\<close>

definition interp_update :: "real \<Rightarrow> solver \<Rightarrow> double \<times> solver" where
  "interp_update z0 s =
     (if np_greater (zm s) (Fin z0) then
        (np_div (np_sub (zhigh s) (zm s)) (np_sub (whigh s) (width s)),
         s\<lparr>wlow := width s, zlow := zm s\<rparr>)
      else
        (np_div (np_sub (zm s) (zlow s)) (np_sub (width s) (wlow s)),
         s\<lparr>whigh := width s, zhigh := zm s\<rparr>))"

text \<open>
  One run of the loop body: the branch, then
  \<^verbatim>\<open>
  width = width + ((z0 - zm) / m)
  zm = wheeler_z0(w=width, t=t, er=er, h=h)
  \<close>
  The new width is a \<open>float64\<close>.
\<close>

definition interp_step ::
  "real \<Rightarrow> real \<Rightarrow> real \<Rightarrow> real \<Rightarrow> solver \<Rightarrow> error + solver" where
  "interp_step z0 t er h s =
     (case interp_update z0 s of
        (m, s') \<Rightarrow>
          let width' = np_add (width s') (np_div (np_sub (Fin z0) (zm s')) m)
          in (case wheeler_z0_f64 width' t er h of
                Inl e \<Rightarrow> Inl e
              | Inr z \<Rightarrow> Inr (s'\<lparr>width := width', zm := z\<rparr>)))"

text \<open>
  \<^verbatim>\<open>
  while np.absolute(zm - z0) > tol:
      ...
  return width
  \<close>
\<close>

partial_function (option) interp_loop ::
  "real \<Rightarrow> real \<Rightarrow> real \<Rightarrow> real \<Rightarrow> real \<Rightarrow> solver \<Rightarrow> (error + double) option" where
  "interp_loop z0 t er h tol s =
     (if np_greater (np_absolute (np_sub (zm s) (Fin z0))) (Fin tol) then
        (case interp_step z0 t er h s of
           Inl e \<Rightarrow> Some (Inl e)
         | Inr s' \<Rightarrow> interp_loop z0 t er h tol s')
      else Some (Inr (width s)))"

definition wheeler_z0_width ::
  "real \<Rightarrow> real \<Rightarrow> real \<Rightarrow> real \<Rightarrow> real \<Rightarrow> real \<Rightarrow> (error + double) option" where
  "wheeler_z0_width z0 t er h tol guess =
     (case bracket z0 t er h guess of
        None \<Rightarrow> None
      | Some (Inl e) \<Rightarrow> Some (Inl e)
      | Some (Inr s) \<Rightarrow> interp_loop z0 t er h tol s)"

subsection \<open>Auxiliary notions for the proofs\<close>

text \<open>
  The finite values of \<open>wheeler_z0\<close>: the effective width \<open>weff\<close> of the source
  and the logarithm inside it, the radicand of the square root that depends on
  \<open>tmp1\<close>, and the argument of the outer logarithm.
\<close>

definition weff_log :: "real \<Rightarrow> real \<Rightarrow> real \<Rightarrow> real" where
  "weff_log w t h =
     ln ((4 * exp 1) / sqrt (((t / h)\<^sup>2) + (((1 / pi) * (1 / ((w / t) + (11 / 10))))\<^sup>2)))"

definition wheeler_weff :: "real \<Rightarrow> real \<Rightarrow> real \<Rightarrow> real \<Rightarrow> real" where
  "wheeler_weff w t er h =
     w + (t * ((1 + (1 / er)) / (2 * pi)))
         * ln ((4 * exp 1)
               / sqrt (((t / h)\<^sup>2) + (((1 / pi) * (1 / ((w / t) + (11 / 10))))\<^sup>2)))"

definition wheeler_rad :: "real \<Rightarrow> real \<Rightarrow> real" where
  "wheeler_rad er tmp1 =
     (let tmp2 = (14 + (8 / er)) / 11
      in (tmp2 * tmp1)\<^sup>2 + ((pi\<^sup>2) * ((1 + (1 / er)) / 2)))"

definition wheeler_arg :: "real \<Rightarrow> real \<Rightarrow> real" where
  "wheeler_arg er tmp1 =
     (let tmp2 = (14 + (8 / er)) / 11
      in 1 + (tmp1 * ((tmp2 * tmp1) + sqrt (wheeler_rad er tmp1))))"

text \<open>
  The bracket: the three impedances of the state are those of its three widths, the
  impedance at \<open>wlow\<close> is not below the target and the impedance at \<open>whigh\<close> is
  not above it, as comparisons of floats.
\<close>

definition bracket_inv :: "real \<Rightarrow> real \<Rightarrow> real \<Rightarrow> real \<Rightarrow> solver \<Rightarrow> bool" where
  "bracket_inv z0 t er h s \<longleftrightarrow>
     wheeler_z0_f64 (width s) t er h = Inr (zm s) \<and>
     wheeler_z0_f64 (wlow s) t er h = Inr (zlow s) \<and>
     wheeler_z0_f64 (whigh s) t er h = Inr (zhigh s) \<and>
     \<not> np_less (zlow s) (Fin z0) \<and> \<not> np_greater (zhigh s) (Fin z0)"



section \<open>Bounds on exp, sin and pi\<close>

text \<open>
  The witnesses and counterexamples evaluate the formulas at concrete inputs. The
  values are transcendental, so they are enclosed between rationals: the exponential
  and the sine by their Maclaurin polynomials with the remainder, \<open>pi\<close> by the sign
  of the sine, logarithms through the exponential, square roots through squares.
\<close>

lemma exp_remainder:
  fixes x :: real
  shows "\<bar>exp x - (\<Sum>m<n. x ^ m / fact m)\<bar> \<le> exp \<bar>x\<bar> * \<bar>x\<bar> ^ n / fact n"
proof -
  obtain t where t: "\<bar>t\<bar> \<le> \<bar>x\<bar>"
    and e: "exp x = (\<Sum>m<n. x ^ m / fact m) + (exp t / fact n) * x ^ n"
    using Maclaurin_exp_le [of x n] by blast
  have "exp t \<le> exp \<bar>x\<bar>" using t by simp
  then have "exp t * \<bar>x\<bar> ^ n \<le> exp \<bar>x\<bar> * \<bar>x\<bar> ^ n"
    by (intro mult_right_mono) simp_all
  then have "\<bar>(exp t / fact n) * x ^ n\<bar> \<le> exp \<bar>x\<bar> * \<bar>x\<bar> ^ n / fact n"
    by (simp add: abs_mult power_abs divide_right_mono)
  with e show ?thesis by simp
qed

lemma exp_small_le_9:
  fixes x :: real
  assumes "\<bar>x\<bar> \<le> 2"
  shows "exp \<bar>x\<bar> \<le> 9"
proof -
  have "exp \<bar>x\<bar> \<le> exp (2::real)" using assms by simp
  also have "exp (2::real) = exp 1 * exp 1" by (simp flip: exp_add)
  also have "\<dots> \<le> 3 * 3" by (intro mult_mono exp_le) simp_all
  finally show ?thesis by simp
qed

lemma exp_approx12:
  fixes x :: real
  assumes "\<bar>x\<bar> \<le> 2"
  shows "\<bar>exp x - (\<Sum>m<12. x ^ m / fact m)\<bar> \<le> 9 * \<bar>x\<bar> ^ 12 / fact 12"
proof -
  have "exp \<bar>x\<bar> * \<bar>x\<bar> ^ 12 / fact 12 \<le> 9 * \<bar>x\<bar> ^ 12 / fact 12"
    by (intro divide_right_mono mult_right_mono exp_small_le_9 assms) simp_all
  with exp_remainder [of x 12] show ?thesis by linarith
qed

lemma exp_lower12:
  fixes x :: real
  assumes "\<bar>x\<bar> \<le> 2"
  shows "(\<Sum>m<12. x ^ m / fact m) - 9 * \<bar>x\<bar> ^ 12 / fact 12 \<le> exp x"
  using exp_approx12 [OF assms] by linarith

lemma exp_upper12:
  fixes x :: real
  assumes "\<bar>x\<bar> \<le> 2"
  shows "exp x \<le> (\<Sum>m<12. x ^ m / fact m) + 9 * \<bar>x\<bar> ^ 12 / fact 12"
  using exp_approx12 [OF assms] by linarith

lemma exp_1_lower: "2.718 \<le> exp (1::real)"
  using exp_lower12 [of 1] by (simp add: eval_nat_numeral lessThan_Suc)

lemma exp_1_upper: "exp (1::real) \<le> 2.7183"
  using exp_upper12 [of 1] by (simp add: eval_nat_numeral lessThan_Suc)

lemma exp_m135_lower: "0.259239 \<le> exp (- (27/20::real))"
  using exp_lower12 [of "- (27/20)"] by (simp add: eval_nat_numeral lessThan_Suc)

lemma exp_m135_upper: "exp (- (27/20::real)) \<le> 0.259241"
  using exp_upper12 [of "- (27/20)"] by (simp add: eval_nat_numeral lessThan_Suc)

lemma exp_m2780_lower: "0.713551 \<le> exp (- (27/80::real))"
  using exp_lower12 [of "- (27/80)"] by (simp add: eval_nat_numeral lessThan_Suc)

lemma exp_m2780_upper: "exp (- (27/80::real)) \<le> 0.713553"
  using exp_upper12 [of "- (27/80)"] by (simp add: eval_nat_numeral lessThan_Suc)

lemma exp_135_upper: "exp (1.35::real) \<le> 3.8575"
  using exp_upper12 [of "1.35"] by (simp add: eval_nat_numeral lessThan_Suc)

lemma exp_1395_lower: "4.03 \<le> exp (1.395::real)"
  using exp_lower12 [of "1.395"] by (simp add: eval_nat_numeral lessThan_Suc)

lemma exp_270_upper: "exp (2.7::real) \<le> 15"
proof -
  have "exp (2.7::real) = exp 1.35 * exp 1.35" by (simp flip: exp_add)
  also have "\<dots> \<le> 3.8575 * 3.8575" using exp_135_upper by (intro mult_mono) simp_all
  finally show ?thesis by simp
qed

lemma exp_279_lower: "16 \<le> exp (2.79::real)"
proof -
  have "(4.03::real) * 4.03 \<le> exp 1.395 * exp 1.395"
    using exp_1395_lower by (intro mult_mono) simp_all
  also have "\<dots> = exp (2.79::real)" by (simp flip: exp_add)
  finally show ?thesis by simp
qed

lemma exp_3_upper: "exp (3::real) \<le> 27"
proof -
  have "exp (3::real) = exp 1 ^ 3" by (simp flip: exp_of_nat_mult)
  also have "\<dots> \<le> 3 ^ 3" using exp_le by (intro power_mono) simp_all
  finally show ?thesis by simp
qed

lemma exp_7_lower: "(1000::real) \<le> exp 7"
proof -
  have "(2.718::real) ^ 7 \<le> exp 1 ^ 7" using exp_1_lower by (intro power_mono) simp_all
  also have "\<dots> = exp (7::real)" by (simp flip: exp_of_nat_mult)
  finally show ?thesis by (simp add: eval_nat_numeral)
qed

lemma exp_054_lower: "1.6 \<le> exp (0.54::real)"
  using exp_lower_Taylor_quadratic [of "0.54::real"] by (simp add: power2_eq_square)



lemma exp_180_lower: "6.0496 \<le> exp (1.8::real)"
  using exp_lower12 [of "1.8"] by (simp add: eval_nat_numeral lessThan_Suc)

lemma exp_720_lower: "1320 \<le> exp (7.2::real)"
proof -
  have "(6.0496::real) ^ 4 \<le> exp 1.8 ^ 4" using exp_180_lower by (intro power_mono) simp_all
  also have "\<dots> = exp (7.2::real)" by (simp flip: exp_of_nat_mult)
  finally show ?thesis by (simp add: eval_nat_numeral)
qed





lemma exp_030_upper: "exp (0.3::real) \<le> 1.39"
  using exp_bound [of "0.3::real"] by (simp add: power2_eq_square)


lemma ln_le_of_le_exp:
  fixes x :: real
  assumes "0 < x" "x \<le> exp y"
  shows "ln x \<le> y"
proof -
  have "ln x \<le> ln (exp y)" using assms by (subst ln_le_cancel_iff) simp_all
  then show ?thesis by simp
qed

lemma ln_ge_of_exp_le:
  fixes x :: real
  assumes "exp y \<le> x"
  shows "y \<le> ln x"
proof -
  have "0 < x" using assms exp_gt_zero [of y] by linarith
  then show ?thesis using assms by (simp add: ln_ge_iff)
qed

lemma sin_upper16:
  fixes x :: real
  shows "sin x \<le> (\<Sum>m<16. sin_coeff m * x ^ m) + inverse (fact 16) * \<bar>x\<bar> ^ 16"
  using Maclaurin_sin_bound [of x 16] by linarith

lemma sin_lower16:
  fixes x :: real
  shows "(\<Sum>m<16. sin_coeff m * x ^ m) - inverse (fact 16) * \<bar>x\<bar> ^ 16 \<le> sin x"
  using Maclaurin_sin_bound [of x 16] by linarith

lemma sin_315_neg: "sin (3.15::real) < 0"
  using sin_upper16 [of "3.15"]
  by (simp add: eval_nat_numeral lessThan_Suc sin_coeff_Suc cos_coeff_Suc)

lemma sin_314_pos: "0 < sin (3.14::real)"
  using sin_lower16 [of "3.14"]
  by (simp add: eval_nat_numeral lessThan_Suc sin_coeff_Suc cos_coeff_Suc)

lemma pi_upper: "pi < 3.15"
proof (rule ccontr)
  assume "\<not> pi < 3.15"
  then have "0 \<le> sin (3.15::real)" by (intro sin_ge_zero) simp_all
  with sin_315_neg show False by simp
qed

lemma pi_lower: "3.14 < pi"
proof (rule ccontr)
  assume "\<not> 3.14 < pi"
  then have "pi \<le> 3.14" by simp
  moreover have "(3.14::real) < 2 * pi" using pi_ge_two by simp
  ultimately have "sin (3.14::real) \<le> 0" by (rule sin_le_zero)
  with sin_314_pos show False by simp
qed

lemma pi_squared_bounds: "9.8596 \<le> pi\<^sup>2" "pi\<^sup>2 \<le> 9.9225"
proof -
  have "(3.14::real)\<^sup>2 \<le> pi\<^sup>2" using pi_lower by (intro power_mono) simp_all
  then show "9.8596 \<le> pi\<^sup>2" by (simp add: power2_eq_square)
  have "pi\<^sup>2 \<le> (3.15::real)\<^sup>2" using pi_upper by (intro power_mono) simp_all
  then show "pi\<^sup>2 \<le> 9.9225" by (simp add: power2_eq_square)
qed

section \<open>Properties of miter\<close>

lemma num_scale: "num (scale c a) = c * num a"
  by (cases a) auto

lemma is_py_scale: "is_py (scale c a) = is_py a"
  by (cases a) simp_all

lemma neg_zero_num: "neg_zero a \<Longrightarrow> num a = 0"
  by (cases a) simp_all

lemma truediv_nonzero:
  "num b \<noteq> 0 \<Longrightarrow> truediv a b = Inr (Fin (num a / num b))"
  using neg_zero_num [of b] by (auto simp: truediv_def py_truediv_def)

lemma truediv_zero:
  "num b = 0 \<Longrightarrow> truediv a b =
     (if is_py a \<and> is_py b then Inl ZeroDivisionError
      else if num a = 0 then Inr NaN
      else if (num a < 0) \<noteq> neg_zero b then Inr NInf else Inr PInf)"
  by (auto simp: truediv_def py_truediv_def)

lemma truediv_Fin:
  assumes "truediv a b = Inr (Fin q)"
  shows "num b \<noteq> 0" and "q = num a / num b"
proof -
  show "num b \<noteq> 0"
    using assms truediv_zero [of b a] by (auto split: if_splits)
  then show "q = num a / num b" using assms by (simp add: truediv_nonzero)
qed

lemma miter_value:
  assumes "num b \<noteq> 0" and "0.25 \<le> num a / num b"
  shows "miter a b = Inr (Fin (0.52 + 0.65 * exp (- (27 / 20) * num a / num b)))"
  using assms by (simp add: miter_def truediv_nonzero num_scale)

text \<open>
  A height of zero under a division of numpy: the ratio is \<open>nan\<close> for a trace width
  of zero, and otherwise an infinity whose sign is that of the trace width, or the
  opposite one if the height is \<open>-0.0\<close>.
\<close>

lemma miter_zero_float64:
  assumes "\<not> (is_py a \<and> is_py b)" and "num b = 0"
  shows "miter a b =
           (if num a = 0 then Inr NaN
            else if (num a < 0) \<noteq> neg_zero b then Inl ValueError
            else Inr (Fin 0.52))"
  using assms
  by (auto simp: miter_def truediv_zero num_scale is_py_scale mult_less_0_iff)

lemma miter_1_1_bounds:
  "0.688505 \<le> 0.52 + 0.65 * exp (- (27 / 20 :: real))"
  "0.52 + 0.65 * exp (- (27 / 20 :: real)) \<le> 0.688507"
  using exp_m135_lower exp_m135_upper by simp_all

lemma miter_1_4_bounds:
  "0.983808 \<le> 0.52 + 0.65 * exp (- (27 / 80 :: real))"
  "0.52 + 0.65 * exp (- (27 / 80 :: real)) \<le> 0.98381"
  using exp_m2780_lower exp_m2780_upper by simp_all

lemma miter_1_1: "miter (PyFloat 1) (PyFloat 1) = Inr (Fin (0.52 + 0.65 * exp (- (27 / 20))))"
  using miter_value [of "PyFloat 1" "PyFloat 1"] by simp

lemma miter_1_4: "miter (PyFloat 1) (PyFloat 4) = Inr (Fin (0.52 + 0.65 * exp (- (27 / 80))))"
  using miter_value [of "PyFloat 4" "PyFloat 1"] by simp

lemma miter_in_interval:
  assumes "num b \<noteq> 0" and "0.25 \<le> num a / num b"
  shows "\<exists>v. miter a b = Inr (Fin v) \<and> 0.52 < v \<and> v \<le> 1.17"
proof -
  have neg: "- (27 / 20) * num a / num b \<le> 0"
    using assms(2) by simp
  have "exp (- (27 / 20) * num a / num b) \<le> 1"
    using neg by simp
  moreover have "0 < exp (- (27 / 20) * num a / num b)" by simp
  ultimately show ?thesis unfolding miter_value [OF assms] by simp
qed




text \<open>
  Claim C5. Where the ratio exists and is at least 0.25, miter returns
  0.52 + 0.65 * exp (-1.35 * trace_width / substrate_height), whether the arguments
  are Python floats or \<open>numpy.float64\<close> values.
\<close>

theorem miter_formula:
  assumes "truediv trace_width substrate_height = Inr (Fin ratio)" and "0.25 \<le> ratio"
  shows "miter trace_width substrate_height =
           Inr (Fin (0.52 + 0.65 * exp (- 1.35 * num trace_width / num substrate_height)))"
proof -
  note q = truediv_Fin [OF assms(1)]
  have "0.25 \<le> num trace_width / num substrate_height" using q(2) assms(2) by simp
  from miter_value [OF q(1) this] show ?thesis by simp
qed

text \<open>
  Witness of C5: a trace twice as wide as the substrate is high, as Python floats and
  with a trace width that is a \<open>numpy.float64\<close>.
\<close>

theorem miter_formula_witness:
  "truediv (PyFloat 2) (PyFloat 1) = Inr (Fin 2) \<and> (0.25::real) \<le> 2 \<and>
   miter (PyFloat 2) (PyFloat 1) = Inr (Fin (0.52 + 0.65 * exp (- 1.35 * 2 / 1))) \<and>
   truediv (NpFloat64 2) (PyFloat 1) = Inr (Fin 2) \<and>
   miter (NpFloat64 2) (PyFloat 1) = Inr (Fin (0.52 + 0.65 * exp (- 1.35 * 2 / 1)))"
proof -
  have r: "truediv (PyFloat 2) (PyFloat 1) = Inr (Fin 2)" by (simp add: truediv_nonzero)
  have r': "truediv (NpFloat64 2) (PyFloat 1) = Inr (Fin 2)" by (simp add: truediv_nonzero)
  have b: "(0.25::real) \<le> 2" by simp
  from miter_formula [OF r b] miter_formula [OF r' b] r r' b show ?thesis by simp
qed




text \<open>
  Claim C6 as stated gives 0.69996 for a ratio of 1 and 1.169 for a ratio of 0.25, and
  a value above 0.52 for every ratio of at least 0.25. The function returns about 0.6885
  and 0.9838: the stated values are off by more than 0.01 and 0.1. And a
  \<open>numpy.float64\<close> trace width over a height of zero has the ratio \<open>inf\<close>, which is
  at least 0.25, and the value 0.52 itself.
\<close>

theorem miter_examples_counterexample:
  "(\<exists>v. miter (PyFloat 1) (PyFloat 1) = Inr (Fin v) \<and> 0.01 < \<bar>v - 0.69996\<bar>) \<and>
   (\<exists>v. miter (PyFloat 1) (PyFloat 4) = Inr (Fin v) \<and> 0.1 < \<bar>v - 1.169\<bar>) \<and>
   truediv (NpFloat64 1) (PyFloat 0) = Inr PInf \<and> np_less_equal (Fin 0.25) PInf \<and>
   miter (NpFloat64 1) (PyFloat 0) = Inr (Fin 0.52)"
proof -
  have "(0.01::real) < \<bar>(0.52 + 0.65 * exp (- (27 / 20))) - 0.69996\<bar>"
    using miter_1_1_bounds(2) by simp
  moreover have "(0.1::real) < \<bar>(0.52 + 0.65 * exp (- (27 / 80))) - 1.169\<bar>"
    using miter_1_4_bounds(2) by simp
  moreover have "miter (NpFloat64 1) (PyFloat 0) = Inr (Fin 0.52)"
    using miter_zero_float64 [of "NpFloat64 1" "PyFloat 0"] by simp
  ultimately show ?thesis by (simp add: miter_1_1 miter_1_4 truediv_zero)
qed

text \<open>
  Claim C6 (amended). For every ratio of at least 0.25 miter returns a value in
  the closed interval [0.52, 1.17]; \<open>miter(1.0, 1.0)\<close>, a ratio of 1, is 0.68851 and
  \<open>miter(1.0, 4.0)\<close>, a ratio of 0.25, is 0.98381, both to within 0.00001.
\<close>

theorem miter_range:
  "(truediv trace_width substrate_height = Inr ratio \<and> np_less_equal (Fin 0.25) ratio \<longrightarrow>
      (\<exists>v. miter trace_width substrate_height = Inr (Fin v) \<and> 0.52 \<le> v \<and> v \<le> 1.17)) \<and>
   (\<exists>v. miter (PyFloat 1) (PyFloat 1) = Inr (Fin v) \<and> \<bar>v - 0.68851\<bar> \<le> 0.00001) \<and>
   (\<exists>v. miter (PyFloat 1) (PyFloat 4) = Inr (Fin v) \<and> \<bar>v - 0.98381\<bar> \<le> 0.00001)"
proof (intro conjI impI)
  assume a: "truediv trace_width substrate_height = Inr ratio \<and> np_less_equal (Fin 0.25) ratio"
  show "\<exists>v. miter trace_width substrate_height = Inr (Fin v) \<and> 0.52 \<le> v \<and> v \<le> 1.17"
  proof (cases "num substrate_height = 0")
    case True
    from a have n: "\<not> (is_py trace_width \<and> is_py substrate_height)"
      and r: "num trace_width \<noteq> 0"
        "\<not> ((num trace_width < 0) \<noteq> neg_zero substrate_height)"
      by (auto simp: truediv_zero [OF True] split: if_splits)
    with miter_zero_float64 [OF n True]
    have "miter trace_width substrate_height = Inr (Fin 0.52)" by simp
    then show ?thesis by (intro exI [of _ "0.52"]) simp
  next
    case False
    with a have "0.25 \<le> num trace_width / num substrate_height"
      by (auto simp: truediv_nonzero)
    from miter_in_interval [OF False this] show ?thesis by auto
  qed
next
  show "\<exists>v. miter (PyFloat 1) (PyFloat 1) = Inr (Fin v) \<and> \<bar>v - 0.68851\<bar> \<le> 0.00001"
    using miter_1_1_bounds by (simp add: miter_1_1 abs_le_iff)
next
  show "\<exists>v. miter (PyFloat 1) (PyFloat 4) = Inr (Fin v) \<and> \<bar>v - 0.98381\<bar> \<le> 0.00001"
    using miter_1_4_bounds by (simp add: miter_1_4 abs_le_iff)
qed

text \<open>
  Witness of C6: trace width and substrate height both 1, and a \<open>numpy.float64\<close>
  trace width of 1 over a height of zero, where the ratio is \<open>inf\<close>.
\<close>

theorem miter_range_witness:
  "truediv (PyFloat 1) (PyFloat 1) = Inr (Fin 1) \<and> np_less_equal (Fin 0.25) (Fin 1) \<and>
   (\<exists>v. miter (PyFloat 1) (PyFloat 1) = Inr (Fin v) \<and> 0.52 \<le> v \<and> v \<le> 1.17) \<and>
   truediv (NpFloat64 1) (PyFloat 0) = Inr PInf \<and> np_less_equal (Fin 0.25) PInf \<and>
   (\<exists>v. miter (NpFloat64 1) (PyFloat 0) = Inr (Fin v) \<and> 0.52 \<le> v \<and> v \<le> 1.17)"
proof -
  have r: "truediv (PyFloat 1) (PyFloat 1) = Inr (Fin 1)" by (simp add: truediv_nonzero)
  have r': "truediv (NpFloat64 1) (PyFloat 0) = Inr PInf" by (simp add: truediv_zero)
  show ?thesis
    using miter_range [of "PyFloat 1" "PyFloat 1" "Fin 1"]
      miter_range [of "NpFloat64 1" "PyFloat 0" PInf] r r' by simp
qed

section \<open>Properties of coax_core_diameter\<close>

text \<open>
  Claim C7. coax_core_diameter returns
  outer_diameter / 10 ^ (impedance * sqrt permittivity / 138) and validates nothing: it
  never raises, and for a negative permittivity the square root, and with it the result,
  is nan.
\<close>

theorem coax_core_diameter_formula:
  "(0 \<le> permittivity \<longrightarrow>
      coax_core_diameter outer_diameter permittivity impedance =
        Inr (outer_diameter / 10 powr (impedance * sqrt permittivity / 138))) \<and>
   (permittivity < 0 \<longrightarrow>
      coax_core_diameter outer_diameter permittivity impedance = Inl NonFinite) \<and>
   coax_core_diameter outer_diameter permittivity impedance \<noteq> Inl ValueError \<and>
   coax_core_diameter outer_diameter permittivity impedance \<noteq> Inl ZeroDivisionError"
  by (simp add: coax_core_diameter_def)

text \<open>
  Witness of C7: the inputs of the spec's example, and a negative permittivity.
\<close>

theorem coax_core_diameter_formula_witness:
  "(0::real) \<le> 2.1 \<and> (- 1 :: real) < 0 \<and>
   coax_core_diameter 0.01 2.1 50 = Inr (0.01 / 10 powr (50 * sqrt 2.1 / 138)) \<and>
   coax_core_diameter 0.01 (- 1) 50 = Inl NonFinite"
  using coax_core_diameter_formula [of "2.1" "0.01" 50]
    coax_core_diameter_formula [of "- 1" "0.01" 50] by simp



section \<open>Properties of wheeler_z0\<close>

subsection \<open>The argument of the outer logarithm\<close>

lemma wheeler_rad_pos: "0 < er \<Longrightarrow> 0 < wheeler_rad er a"
proof -
  assume er: "0 < er"
  have "0 < (1 + (1 / er)) / 2" using er by (simp add: add_pos_pos)
  then have "0 < (pi\<^sup>2) * ((1 + (1 / er)) / 2)" by (intro mult_pos_pos) simp_all
  moreover have "0 \<le> (((14 + (8 / er)) / 11) * a)\<^sup>2" by simp
  ultimately show ?thesis unfolding wheeler_rad_def Let_def by linarith
qed

lemma wheeler_rad_mono:
  assumes "0 < er" "0 \<le> a" "a \<le> b"
  shows "wheeler_rad er a \<le> wheeler_rad er b"
proof -
  have k: "0 \<le> (14 + (8 / er)) / 11" using assms(1) by simp
  have "((14 + (8 / er)) / 11) * a \<le> ((14 + (8 / er)) / 11) * b"
    using k assms by (intro mult_left_mono) simp_all
  moreover have "0 \<le> ((14 + (8 / er)) / 11) * a" using k assms by simp
  ultimately have "(((14 + (8 / er)) / 11) * a)\<^sup>2 \<le> (((14 + (8 / er)) / 11) * b)\<^sup>2"
    by (intro power_mono) simp_all
  then show ?thesis unfolding wheeler_rad_def Let_def by simp
qed

lemma wheeler_arg_gt_1:
  assumes "0 < er" "0 < a"
  shows "1 < wheeler_arg er a"
proof -
  have k: "0 < (14 + (8 / er)) / 11" using assms(1) by (simp add: add_pos_pos)
  have "0 < sqrt (wheeler_rad er a)" using wheeler_rad_pos [OF assms(1)] by simp
  moreover have "0 < ((14 + (8 / er)) / 11) * a" using k assms(2) by simp
  ultimately have "0 < (((14 + (8 / er)) / 11) * a) + sqrt (wheeler_rad er a)"
    by (rule add_pos_pos [rotated])
  then have "0 < a * ((((14 + (8 / er)) / 11) * a) + sqrt (wheeler_rad er a))"
    using assms(2) by (rule mult_pos_pos [rotated])
  then show ?thesis unfolding wheeler_arg_def Let_def by simp
qed

lemma wheeler_arg_strict_mono:
  assumes "0 < er" "0 < a" "a < b"
  shows "wheeler_arg er a < wheeler_arg er b"
proof -
  have k: "0 < (14 + (8 / er)) / 11" using assms(1) by (simp add: add_pos_pos)
  have s: "sqrt (wheeler_rad er a) \<le> sqrt (wheeler_rad er b)"
    using wheeler_rad_mono [of er a b] assms by simp
  have sp: "0 < sqrt (wheeler_rad er a)" using wheeler_rad_pos [OF assms(1)] by simp
  have "((14 + (8 / er)) / 11) * a < ((14 + (8 / er)) / 11) * b"
    using k assms(3) by simp
  with s have le: "(((14 + (8 / er)) / 11) * a) + sqrt (wheeler_rad er a)
      \<le> (((14 + (8 / er)) / 11) * b) + sqrt (wheeler_rad er b)" by linarith
  have pos: "0 < (((14 + (8 / er)) / 11) * a) + sqrt (wheeler_rad er a)"
    using k assms(2) sp by (intro add_pos_pos) simp_all
  have "a * ((((14 + (8 / er)) / 11) * a) + sqrt (wheeler_rad er a))
      < b * ((((14 + (8 / er)) / 11) * b) + sqrt (wheeler_rad er b))"
    using assms(3) le _ pos by (rule mult_less_le_imp_less) (use assms(2) in simp)
  then show ?thesis unfolding wheeler_arg_def Let_def by simp
qed

lemma wheeler_arg_mono:
  assumes "0 < er" "0 < a" "a \<le> b"
  shows "wheeler_arg er a \<le> wheeler_arg er b"
  using wheeler_arg_strict_mono [OF assms(1,2), of b] assms(3) by (cases "a = b") auto

lemma wheeler_arg_lt_1:
  assumes "0 < er" "a < 0"
  shows "wheeler_arg er a < 1"
proof -
  let ?b = "(14 + (8 / er)) / 11"
  have "0 < (1 + (1 / er)) / 2" using assms(1) by (simp add: add_pos_pos)
  then have "0 < (pi\<^sup>2) * ((1 + (1 / er)) / 2)" by (intro mult_pos_pos) simp_all
  then have "(?b * a)\<^sup>2 < wheeler_rad er a"
    unfolding wheeler_rad_def Let_def by linarith
  then have "sqrt ((?b * a)\<^sup>2) < sqrt (wheeler_rad er a)"
    by (rule real_sqrt_less_mono)
  then have "\<bar>?b * a\<bar> < sqrt (wheeler_rad er a)"
    by (simp only: real_sqrt_abs)
  then have "0 < (?b * a) + sqrt (wheeler_rad er a)"
    unfolding abs_less_iff by linarith
  then have "a * ((?b * a) + sqrt (wheeler_rad er a)) < 0"
    using assms(2) by (simp add: mult_neg_pos)
  then show ?thesis unfolding wheeler_arg_def Let_def by simp
qed

lemma wheeler_arg_upper:
  assumes "0 < er" "0 \<le> a" "0 \<le> S" "wheeler_rad er a \<le> S\<^sup>2"
  shows "wheeler_arg er a \<le> 1 + a * ((((14 + (8 / er)) / 11) * a) + S)"
proof -
  have "sqrt (wheeler_rad er a) \<le> S" using assms(3,4) by (intro real_le_lsqrt)
  then have "a * ((((14 + (8 / er)) / 11) * a) + sqrt (wheeler_rad er a))
      \<le> a * ((((14 + (8 / er)) / 11) * a) + S)"
    using assms(2) by (intro mult_left_mono) simp_all
  then show ?thesis unfolding wheeler_arg_def Let_def by simp
qed

lemma wheeler_arg_lower:
  assumes "0 < er" "0 \<le> a" "S\<^sup>2 \<le> wheeler_rad er a"
  shows "1 + a * ((((14 + (8 / er)) / 11) * a) + S) \<le> wheeler_arg er a"
proof -
  have "S \<le> sqrt (wheeler_rad er a)" using assms(3) by (rule real_le_rsqrt)
  then have "a * ((((14 + (8 / er)) / 11) * a) + S)
      \<le> a * ((((14 + (8 / er)) / 11) * a) + sqrt (wheeler_rad er a))"
    using assms(2) by (intro mult_left_mono) simp_all
  then show ?thesis unfolding wheeler_arg_def Let_def by simp
qed

lemma wheeler_rad_er1: "wheeler_rad 1 a = (2 * a)\<^sup>2 + pi\<^sup>2"
  by (simp add: wheeler_rad_def)

lemma wheeler_arg_er1: "wheeler_arg 1 a = 1 + a * (2 * a + sqrt ((2 * a)\<^sup>2 + pi\<^sup>2))"
  by (simp add: wheeler_arg_def wheeler_rad_er1)

text \<open>For a negative \<open>tmp1\<close> the argument of the logarithm stays positive while
  \<open>tmp1\<close> is small.\<close>

lemma wheeler_arg_er1_pos:
  assumes "a < 0" and "(pi\<^sup>2 - 4) * a\<^sup>2 < 1"
  shows "0 < wheeler_arg 1 a"
proof -
  let ?s = "sqrt ((2 * a)\<^sup>2 + pi\<^sup>2)"
  have s2: "?s\<^sup>2 = (2 * a)\<^sup>2 + pi\<^sup>2" by simp
  have "(a * ?s)\<^sup>2 = a\<^sup>2 * ((2 * a)\<^sup>2 + pi\<^sup>2)"
    by (simp add: power_mult_distrib)
  also have "\<dots> = (1 + 2 * a\<^sup>2)\<^sup>2 + ((pi\<^sup>2 - 4) * a\<^sup>2 - 1)"
    by (simp add: power2_eq_square algebra_simps)
  also have "\<dots> < (1 + 2 * a\<^sup>2)\<^sup>2" using assms(2) by simp
  finally have "(a * ?s)\<^sup>2 < (1 + 2 * a\<^sup>2)\<^sup>2" .
  then have "\<bar>a * ?s\<bar>\<^sup>2 < (1 + 2 * a\<^sup>2)\<^sup>2" by (simp only: power2_abs)
  moreover have "0 \<le> 1 + 2 * a\<^sup>2" by simp
  ultimately have "\<bar>a * ?s\<bar> < 1 + 2 * a\<^sup>2" by (rule power2_less_imp_less)
  then have "- (1 + 2 * a\<^sup>2) < a * ?s" unfolding abs_less_iff by linarith
  moreover have "wheeler_arg 1 a = 1 + 2 * a\<^sup>2 + a * ?s"
    unfolding wheeler_arg_er1 by (simp add: power2_eq_square algebra_simps)
  ultimately show ?thesis by linarith
qed


subsection \<open>The effective width\<close>

lemma wheeler_weff_eq:
  "wheeler_weff w t er h = w + (t * ((1 + (1 / er)) / (2 * pi))) * weff_log w t h"
  by (simp add: wheeler_weff_def weff_log_def)

lemma weff_rad_pos:
  assumes "t \<noteq> 0" "h \<noteq> 0"
  shows "0 < ((t / h)\<^sup>2) + (((1 / pi) * (1 / ((w / t) + (11 / 10))))\<^sup>2)"
proof -
  have "0 < (t / h)\<^sup>2" using assms by simp
  moreover have "0 \<le> (((1 / pi) * (1 / ((w / t) + (11 / 10))))\<^sup>2)" by simp
  ultimately show ?thesis by linarith
qed

lemma weff_log_mono:
  assumes "0 < t" "0 < h" "0 < (w1 / t) + (11 / 10)" "w1 \<le> w2"
  shows "weff_log w1 t h \<le> weff_log w2 t h"
proof -
  let ?d1 = "(w1 / t) + (11 / 10)" and ?d2 = "(w2 / t) + (11 / 10)"
  have d: "?d1 \<le> ?d2" using assms by (simp add: divide_right_mono)
  then have d2: "0 < ?d2" using assms(3) by linarith
  have "1 / ?d2 \<le> 1 / ?d1" using d assms(3) by (simp add: frac_le)
  then have "(1 / pi) * (1 / ?d2) \<le> (1 / pi) * (1 / ?d1)"
    by (intro mult_left_mono) simp_all
  moreover have "0 \<le> (1 / pi) * (1 / ?d2)" using d2 by simp
  ultimately have "((1 / pi) * (1 / ?d2))\<^sup>2 \<le> ((1 / pi) * (1 / ?d1))\<^sup>2"
    by (intro power_mono) simp_all
  then have r: "sqrt (((t / h)\<^sup>2) + ((1 / pi) * (1 / ?d2))\<^sup>2)
      \<le> sqrt (((t / h)\<^sup>2) + ((1 / pi) * (1 / ?d1))\<^sup>2)" by simp
  have p2: "0 < sqrt (((t / h)\<^sup>2) + ((1 / pi) * (1 / ?d2))\<^sup>2)"
    using weff_rad_pos [of t h w2] assms by simp
  have p1: "0 < sqrt (((t / h)\<^sup>2) + ((1 / pi) * (1 / ?d1))\<^sup>2)"
    using weff_rad_pos [of t h w1] assms by simp
  have e: "0 < 4 * exp (1::real)" by simp
  have q: "(4 * exp 1) / sqrt (((t / h)\<^sup>2) + ((1 / pi) * (1 / ?d1))\<^sup>2)
      \<le> (4 * exp 1) / sqrt (((t / h)\<^sup>2) + ((1 / pi) * (1 / ?d2))\<^sup>2)"
    using r p2 e by (intro divide_left_mono mult_pos_pos p1 p2) simp_all
  have "0 < (4 * exp 1) / sqrt (((t / h)\<^sup>2) + ((1 / pi) * (1 / ?d1))\<^sup>2)"
    using p1 e by (intro divide_pos_pos)
  then show ?thesis
    unfolding weff_log_def using q by (subst ln_le_cancel_iff) (auto intro: less_le_trans)
qed

lemma wheeler_weff_strict_mono:
  assumes "0 < t" "0 < h" "0 < er" "0 < (w1 / t) + (11 / 10)" "w1 < w2"
  shows "wheeler_weff w1 t er h < wheeler_weff w2 t er h"
proof -
  have c: "0 \<le> t * ((1 + (1 / er)) / (2 * pi))" using assms by simp
  have "weff_log w1 t h \<le> weff_log w2 t h"
    using weff_log_mono [of t h w1 w2] assms by simp
  then have "(t * ((1 + (1 / er)) / (2 * pi))) * weff_log w1 t h
      \<le> (t * ((1 + (1 / er)) / (2 * pi))) * weff_log w2 t h"
    using c by (rule mult_left_mono)
  then show ?thesis unfolding wheeler_weff_eq using assms(5) by linarith
qed

lemma weff_log_nonneg:
  assumes "0 < t" "0 < h" "t \<le> 10 * h" "0 \<le> w"
  shows "0 \<le> weff_log w t h"
proof -
  let ?d = "(w / t) + (11 / 10)"
  let ?r = "((t / h)\<^sup>2) + (((1 / pi) * (1 / ?d))\<^sup>2)"
  have "t / h \<le> 10" using assms by (simp add: pos_divide_le_eq)
  moreover have "0 \<le> t / h" using assms by simp
  ultimately have a: "(t / h)\<^sup>2 \<le> 10\<^sup>2" by (intro power_mono)
  have d: "1 \<le> ?d" using assms by (simp add: add_increasing)
  then have "1 / ?d \<le> 1" by simp
  moreover have "1 / pi \<le> 1" using pi_lower by simp
  moreover have "0 \<le> 1 / ?d" using d by simp
  ultimately have "(1 / pi) * (1 / ?d) \<le> 1 * 1"
    by (intro mult_mono) simp_all
  moreover have "0 \<le> (1 / pi) * (1 / ?d)" using d by simp
  ultimately have b: "((1 / pi) * (1 / ?d))\<^sup>2 \<le> 1\<^sup>2" by (intro power_mono) simp_all
  have "(2.718::real) \<le> exp 1" by (rule exp_1_lower)
  then have "(4 * 2.718)\<^sup>2 \<le> (4 * exp (1::real))\<^sup>2" by (intro power_mono) simp_all
  moreover have "(101::real) \<le> (4 * 2.718)\<^sup>2" by (simp add: power2_eq_square)
  moreover have "(t / h)\<^sup>2 \<le> 100" using a by simp
  moreover have "((1 / pi) * (1 / ?d))\<^sup>2 \<le> 1" using b by simp
  ultimately have "?r \<le> (4 * exp 1)\<^sup>2" by linarith
  then have "sqrt ?r \<le> 4 * exp 1" by (intro real_le_lsqrt) simp_all
  moreover have "0 < sqrt ?r" using weff_rad_pos [of t h w] assms by simp
  ultimately have "1 \<le> (4 * exp 1) / sqrt ?r" by simp
  then show ?thesis unfolding weff_log_def by (rule ln_ge_zero)
qed

lemma wheeler_weff_ge:
  assumes "0 < t" "0 < h" "t \<le> 10 * h" "0 \<le> w" "0 < er"
  shows "w \<le> wheeler_weff w t er h"
proof -
  have "0 \<le> t * ((1 + (1 / er)) / (2 * pi))" using assms by simp
  then have "0 \<le> (t * ((1 + (1 / er)) / (2 * pi))) * weff_log w t h"
    using weff_log_nonneg [OF assms(1-4)] by (rule mult_nonneg_nonneg)
  then show ?thesis unfolding wheeler_weff_eq by simp
qed

text \<open>The logarithm of the effective width is at most \<open>ln (4 e h / t)\<close>.\<close>

lemma weff_log_le:
  assumes "0 < t" "0 < h" "4 * exp 1 * h / t \<le> exp L"
  shows "weff_log w t h \<le> L"
proof -
  let ?r = "((t / h)\<^sup>2) + (((1 / pi) * (1 / ((w / t) + (11 / 10))))\<^sup>2)"
  have th: "0 < t / h" using assms by simp
  have "(t / h)\<^sup>2 \<le> ?r" by simp
  then have "t / h \<le> sqrt ?r" by (rule real_le_rsqrt)
  then have sp: "0 < sqrt ?r" using th by linarith
  have "(4 * exp 1) / sqrt ?r \<le> (4 * exp 1) / (t / h)"
    using \<open>t / h \<le> sqrt ?r\<close> sp th by (intro divide_left_mono mult_pos_pos) simp_all
  also have "\<dots> = 4 * exp 1 * h / t" by simp
  finally have le: "(4 * exp 1) / sqrt ?r \<le> exp L" using assms(3) by linarith
  from sp have pos: "0 < (4 * exp 1) / sqrt ?r" by (intro divide_pos_pos) simp_all
  have "ln ((4 * exp 1) / sqrt ?r) \<le> ln (exp L)"
    using pos le by (subst ln_le_cancel_iff) simp_all
  then show ?thesis unfolding weff_log_def by simp
qed


lemma wheeler_weff_le:
  assumes "0 < t" "0 < h" "t \<le> 10 * h" "0 \<le> w" "0 < er"
    and "weff_log w t h \<le> L" and "t * ((1 + (1 / er)) / (2 * pi)) \<le> C"
  shows "wheeler_weff w t er h \<le> w + C * L"
proof -
  have "0 \<le> t * ((1 + (1 / er)) / (2 * pi))" using assms by simp
  moreover have "0 \<le> weff_log w t h" using assms(1-4) by (rule weff_log_nonneg)
  ultimately have "(t * ((1 + (1 / er)) / (2 * pi))) * weff_log w t h \<le> C * L"
    using assms(6,7) by (intro mult_mono) simp_all
  then show ?thesis unfolding wheeler_weff_eq by simp
qed

subsection \<open>The impedance\<close>

text \<open>The constant factor of the impedance.\<close>

lemma wheeler_factor_pos:
  "0 < er \<Longrightarrow> 0 < 376.730313668 / (2 * pi * sqrt (2 * (1 + er)))"
  by simp


text \<open>
  With a positive permittivity and no zero divisor up to \<open>tmp1\<close>, every value of
  \<open>wheeler_z0\<close> before the outer logarithm is a finite number, and the result is
  decided by the argument of that logarithm.
\<close>

lemma wheeler_zm_Fin:
  assumes "0 < er" "h \<noteq> 0" "t \<noteq> 0" "(w / t) + (11 / 10) \<noteq> 0"
    and "wheeler_weff w t er h \<noteq> 0"
  shows "wheeler_zm (Fin w) t er h =
           (if wheeler_arg er (4 * h / wheeler_weff w t er h) < 0 then NaN
            else if wheeler_arg er (4 * h / wheeler_weff w t er h) = 0 then NInf
            else Fin ((376.730313668 / (2 * pi * sqrt (2 * (1 + er))))
                      * ln (wheeler_arg er (4 * h / wheeler_weff w t er h))))"
proof -
  let ?r = "((t / h)\<^sup>2) + (((1 / pi) * (1 / ((w / t) + (11 / 10))))\<^sup>2)"
  let ?a = "4 * h / wheeler_weff w t er h"
  have r: "0 < ?r" using weff_rad_pos [of t h w] assms by simp
  then have s: "0 < sqrt ?r" by (rule real_sqrt_gt_zero)
  have q: "0 < (4 * exp 1) / sqrt ?r" using s by (intro divide_pos_pos) simp_all
  have weff: "np_add (Fin w)
                   (np_mul (Fin (t * ((1 + (1 / er)) / (2 * pi))))
                      (np_log
                         (np_div (Fin (4 * exp 1))
                            (np_sqrt
                               (np_add (Fin ((t / h)\<^sup>2))
                                  (np_square
                                     (np_mul (Fin (1 / pi))
                                        (np_div (Fin 1)
                                           (np_add (np_div (Fin w) (Fin t)) (Fin (11 / 10))))))))))) =
        Fin (wheeler_weff w t er h)"
  proof -
    have 1: "np_square (np_mul (Fin (1 / pi))
                (np_div (Fin 1) (np_add (np_div (Fin w) (Fin t)) (Fin (11 / 10)))))
          = Fin (((1 / pi) * (1 / ((w / t) + (11 / 10))))\<^sup>2)"
      using assms(3,4) by (simp add: np_square_def power2_eq_square)
    have rn: "\<not> ?r < 0" using r by linarith
    have sn: "sqrt ?r \<noteq> 0" using s by linarith
    have qn: "\<not> (4 * exp 1) / sqrt ?r < 0" "(4 * exp 1) / sqrt ?r \<noteq> 0"
      using q by linarith+
    have 2: "np_sqrt (Fin ?r) = Fin (sqrt ?r)"
      by (simp only: np_sqrt.simps rn if_False)
    have 3: "np_div (Fin (4 * exp 1)) (Fin (sqrt ?r)) = Fin ((4 * exp 1) / sqrt ?r)"
      by (simp only: np_div.simps sn if_False)
    have 4: "np_log (Fin ((4 * exp 1) / sqrt ?r)) = Fin (ln ((4 * exp 1) / sqrt ?r))"
      by (simp only: np_log.simps qn if_False)
    show ?thesis
      unfolding 1 np_add.simps(1) 2 3 4 np_mul.simps(1) wheeler_weff_def ..
  qed
  have K: "np_div (Fin 376.730313668) (np_mul (Fin (2 * pi)) (np_sqrt (Fin (2 * (1 + er)))))
        = Fin (376.730313668 / (2 * pi * sqrt (2 * (1 + er))))"
    using assms(1) by simp
  have Kp: "0 < 376.730313668 / (2 * pi * sqrt (2 * (1 + er)))"
    using assms(1) by simp
  have tmp1: "np_div (Fin (4 * h)) (Fin (wheeler_weff w t er h)) = Fin ?a"
    using assms(5) by simp
  have rp: "0 < wheeler_rad er ?a" using assms(1) by (rule wheeler_rad_pos)
  have rad: "np_add (np_square (np_mul (Fin ((14 + (8 / er)) / 11)) (Fin ?a)))
                 (Fin ((pi\<^sup>2) * ((1 + (1 / er)) / 2))) = Fin (wheeler_rad er ?a)"
    by (simp add: np_square_def wheeler_rad_def power2_eq_square)
  have sq: "np_sqrt (Fin (wheeler_rad er ?a)) = Fin (sqrt (wheeler_rad er ?a))"
    using rp by simp
  have arg: "np_add (Fin 1)
                 (np_mul (Fin ?a)
                    (np_add (np_mul (Fin ((14 + (8 / er)) / 11)) (Fin ?a))
                       (Fin (sqrt (wheeler_rad er ?a))))) = Fin (wheeler_arg er ?a)"
    by (simp add: wheeler_arg_def)
  show ?thesis
    unfolding wheeler_zm_def Let_def weff tmp1 K rad sq arg
    using Kp assms(1) by simp
qed



lemma wheeler_z0_f64_of_float:
  "wheeler_z0 w t er h = Inr z \<Longrightarrow> wheeler_z0_f64 (Fin w) t er h = Inr z"
  by (auto simp: wheeler_z0_f64_def wheeler_z0_def split: if_splits)

lemma wheeler_z0_of_f64:
  "wheeler_z0_f64 (Fin w) t er h = Inr z \<Longrightarrow> t \<noteq> 0 \<Longrightarrow> (w / t) + (11 / 10) \<noteq> 0
     \<Longrightarrow> wheeler_z0 w t er h = Inr z"
  by (auto simp: wheeler_z0_f64_def wheeler_z0_def split: if_splits)

lemma wheeler_z0_value:
  assumes "0 < er" "h \<noteq> 0" "t \<noteq> 0" "(w / t) + (11 / 10) \<noteq> 0"
    and "wheeler_weff w t er h \<noteq> 0"
    and "0 < wheeler_arg er (4 * h / wheeler_weff w t er h)"
  shows "wheeler_z0 w t er h =
           Inr (Fin ((376.730313668 / (2 * pi * sqrt (2 * (1 + er))))
                * ln (wheeler_arg er (4 * h / wheeler_weff w t er h))))"
  using assms wheeler_zm_Fin [OF assms(1-5)] by (simp add: wheeler_z0_def)


lemma wheeler_z0_of_pos_weff:
  assumes "0 < er" "0 < h" "t \<noteq> 0" "(w / t) + (11 / 10) \<noteq> 0"
    and "0 < wheeler_weff w t er h"
  shows "wheeler_z0 w t er h =
           Inr (Fin ((376.730313668 / (2 * pi * sqrt (2 * (1 + er))))
                * ln (wheeler_arg er (4 * h / wheeler_weff w t er h))))"
    and "0 < (376.730313668 / (2 * pi * sqrt (2 * (1 + er))))
                * ln (wheeler_arg er (4 * h / wheeler_weff w t er h))"
proof -
  have a: "0 < 4 * h / wheeler_weff w t er h" using assms by simp
  have g: "1 < wheeler_arg er (4 * h / wheeler_weff w t er h)"
    using wheeler_arg_gt_1 [OF assms(1) a] .
  show "wheeler_z0 w t er h =
           Inr (Fin ((376.730313668 / (2 * pi * sqrt (2 * (1 + er))))
                * ln (wheeler_arg er (4 * h / wheeler_weff w t er h))))"
    using assms g by (intro wheeler_z0_value) simp_all
  have "0 < ln (wheeler_arg er (4 * h / wheeler_weff w t er h))"
    using g by simp
  then show "0 < (376.730313668 / (2 * pi * sqrt (2 * (1 + er))))
                * ln (wheeler_arg er (4 * h / wheeler_weff w t er h))"
    using wheeler_factor_pos [OF assms(1)] by (intro mult_pos_pos)
qed

lemma wheeler_z0_decreasing_weff:
  assumes "0 < er" "0 < h" "0 < wheeler_weff w1 t er h"
    and "wheeler_weff w1 t er h < wheeler_weff w2 t er h"
  shows "(376.730313668 / (2 * pi * sqrt (2 * (1 + er))))
            * ln (wheeler_arg er (4 * h / wheeler_weff w2 t er h))
         < (376.730313668 / (2 * pi * sqrt (2 * (1 + er))))
            * ln (wheeler_arg er (4 * h / wheeler_weff w1 t er h))"
proof -
  have a2: "0 < 4 * h / wheeler_weff w2 t er h" using assms by simp
  have lt: "4 * h / wheeler_weff w2 t er h < 4 * h / wheeler_weff w1 t er h"
    using assms by (intro divide_strict_left_mono mult_pos_pos) simp_all
  have "wheeler_arg er (4 * h / wheeler_weff w2 t er h)
      < wheeler_arg er (4 * h / wheeler_weff w1 t er h)"
    using assms(1) a2 lt by (rule wheeler_arg_strict_mono)
  moreover have "1 < wheeler_arg er (4 * h / wheeler_weff w2 t er h)"
    using assms(1) a2 by (rule wheeler_arg_gt_1)
  ultimately have "ln (wheeler_arg er (4 * h / wheeler_weff w2 t er h))
      < ln (wheeler_arg er (4 * h / wheeler_weff w1 t er h))"
    by (subst ln_less_cancel_iff) simp_all
  then show ?thesis
    using wheeler_factor_pos [OF assms(1)] by (intro mult_strict_left_mono)
qed


lemma wheeler_z0_between:
  assumes "0 < er" "0 < h" "t \<noteq> 0" "(w / t) + (11 / 10) \<noteq> 0"
    and "0 < lo" "lo \<le> wheeler_weff w t er h" "wheeler_weff w t er h \<le> hi"
  shows "\<exists>z. wheeler_z0 w t er h = Inr (Fin z) \<and>
           (376.730313668 / (2 * pi * sqrt (2 * (1 + er)))) * ln (wheeler_arg er (4 * h / hi)) \<le> z \<and>
           z \<le> (376.730313668 / (2 * pi * sqrt (2 * (1 + er)))) * ln (wheeler_arg er (4 * h / lo))"
proof -
  let ?K = "376.730313668 / (2 * pi * sqrt (2 * (1 + er)))"
  let ?we = "wheeler_weff w t er h"
  have p: "0 < ?we" using assms by linarith
  have hi: "0 < hi" using p assms by linarith
  have K: "0 \<le> ?K" using wheeler_factor_pos [OF assms(1)] by simp
  have a1: "4 * h / hi \<le> 4 * h / ?we"
    using assms p hi by (intro divide_left_mono mult_pos_pos) simp_all
  have a2: "4 * h / ?we \<le> 4 * h / lo"
    using assms p by (intro divide_left_mono mult_pos_pos) simp_all
  have p1: "0 < 4 * h / hi" using assms hi by simp
  have p2: "0 < 4 * h / ?we" using assms p by simp
  have g1: "wheeler_arg er (4 * h / hi) \<le> wheeler_arg er (4 * h / ?we)"
    using assms(1) p1 a1 by (rule wheeler_arg_mono)
  have g2: "wheeler_arg er (4 * h / ?we) \<le> wheeler_arg er (4 * h / lo)"
    using assms(1) p2 a2 by (rule wheeler_arg_mono)
  have q1: "0 < wheeler_arg er (4 * h / hi)"
    using wheeler_arg_gt_1 [OF assms(1) p1] by simp
  have q2: "0 < wheeler_arg er (4 * h / ?we)"
    using wheeler_arg_gt_1 [OF assms(1) p2] by simp
  have l1: "ln (wheeler_arg er (4 * h / hi)) \<le> ln (wheeler_arg er (4 * h / ?we))"
    using q1 g1 by (subst ln_le_cancel_iff) simp_all
  have l2: "ln (wheeler_arg er (4 * h / ?we)) \<le> ln (wheeler_arg er (4 * h / lo))"
    using q2 g2 by (subst ln_le_cancel_iff) simp_all
  have "?K * ln (wheeler_arg er (4 * h / hi)) \<le> ?K * ln (wheeler_arg er (4 * h / ?we))"
    using l1 K by (rule mult_left_mono)
  moreover have "?K * ln (wheeler_arg er (4 * h / ?we)) \<le> ?K * ln (wheeler_arg er (4 * h / lo))"
    using l2 K by (rule mult_left_mono)
  moreover note wheeler_z0_of_pos_weff(1) [OF assms(1-4) p]
  ultimately show ?thesis by simp
qed

subsection \<open>The formula over the reals\<close>

text \<open>
  Claim C3 reads: for all positive \<open>w\<close>, \<open>t\<close>, \<open>h\<close> and \<open>er \<ge> 1\<close> the
  impedance is finite, strictly positive and strictly decreasing in the width. Of the
  floats of the program, strict positivity and strict monotonicity are statements about
  rounding (for a small positive \<open>x\<close> the sum \<open>1 + x\<close> of the outer logarithm can be
  the float 1), and finiteness is one about overflow; neither exists here, where
  arithmetic is exact. The two facts below are about the formula as a function of reals.

  For a trace a thousand times thicker than the substrate is high (\<open>w = 1\<close>,
  \<open>t = 1000\<close>, \<open>er = 1\<close>, \<open>h = 1\<close>) the thickness correction makes the effective
  width negative, and the impedance is a negative number.
\<close>

lemma weff_log_thick: "weff_log 1 1000 1 \<le> - 1"
proof -
  let ?r = "((1000 / 1)\<^sup>2) + (((1 / pi) * (1 / ((1 / 1000) + (11 / 10))))\<^sup>2)"
  have "(1000::real)\<^sup>2 \<le> ?r" by simp
  then have "1000 \<le> sqrt ?r" by (rule real_le_rsqrt)
  then have sp: "0 < sqrt ?r" by linarith
  have "(4 * exp 1) / sqrt ?r \<le> (4 * exp 1) / 1000"
    using \<open>1000 \<le> sqrt ?r\<close> sp by (intro divide_left_mono mult_pos_pos) simp_all
  also have "\<dots> \<le> (4 * 3) / 1000" using exp_le by simp
  also have "\<dots> \<le> 1 / 3" by simp
  also have "\<dots> \<le> 1 / exp 1" using exp_le by (intro divide_left_mono) simp_all
  also have "\<dots> = exp (- 1)" by (simp add: exp_minus inverse_eq_divide)
  finally have le: "(4 * exp 1) / sqrt ?r \<le> exp (- 1)" .
  from sp have pos: "0 < (4 * exp 1) / sqrt ?r" by (intro divide_pos_pos) simp_all
  have "ln ((4 * exp 1) / sqrt ?r) \<le> ln (exp (- 1))"
    using pos le by (subst ln_le_cancel_iff) simp_all
  then show ?thesis unfolding weff_log_def by simp
qed

lemma wheeler_weff_thick: "wheeler_weff 1 1000 1 1 \<le> - 299"
proof -
  have c: "300 \<le> 1000 * ((1 + (1 / 1)) / (2 * pi))"
    using pi_upper by (simp add: field_simps)
  have "(1000 * ((1 + (1 / 1)) / (2 * pi))) * weff_log 1 1000 1
      \<le> (1000 * ((1 + (1 / 1)) / (2 * pi))) * (- 1)"
    using weff_log_thick by (intro mult_left_mono) simp_all
  then show ?thesis unfolding wheeler_weff_eq using c by linarith
qed

lemma wheeler_z0_thick:
  "wheeler_z0 1 1000 1 1 =
     Inr (Fin ((376.730313668 / (2 * pi * sqrt (2 * (1 + 1))))
          * ln (wheeler_arg 1 (4 * 1 / wheeler_weff 1 1000 1 1))))"
  "(376.730313668 / (2 * pi * sqrt (2 * (1 + 1))))
          * ln (wheeler_arg 1 (4 * 1 / wheeler_weff 1 1000 1 1)) < 0"
proof -
  let ?a = "4 * 1 / wheeler_weff 1 1000 1 1"
  have w: "wheeler_weff 1 1000 1 1 < 0" using wheeler_weff_thick by linarith
  then have neg: "?a < 0" by (simp add: divide_neg_pos field_simps)
  have "0 < (- 299) * wheeler_weff 1 1000 1 1" using w by (intro mult_neg_neg) simp_all
  then have "4 * 1 / (- 299) \<le> ?a"
    using wheeler_weff_thick by (intro divide_left_mono) simp_all
  then have lo: "- (1 / 50) \<le> ?a" by simp
  have "?a\<^sup>2 \<le> (1 / 50)\<^sup>2"
    using lo neg by (intro abs_le_square_iff [THEN iffD1]) simp
  then have a2: "?a\<^sup>2 \<le> 1 / 2500" by (simp add: power2_eq_square)
  have "pi\<^sup>2 \<le> 4\<^sup>2" using pi_less_4 by (intro power_mono) simp_all
  then have "pi\<^sup>2 - 4 \<le> 12" by simp
  moreover have "0 \<le> pi\<^sup>2 - 4"
    using power_mono [of 2 pi 2] pi_ge_two by simp
  ultimately have "(pi\<^sup>2 - 4) * ?a\<^sup>2 \<le> 12 * (1 / 2500)"
    using a2 by (intro mult_mono) simp_all
  then have "(pi\<^sup>2 - 4) * ?a\<^sup>2 < 1" by simp
  with neg have pos: "0 < wheeler_arg 1 ?a" by (rule wheeler_arg_er1_pos)
  have lt: "wheeler_arg 1 ?a < 1" using neg by (intro wheeler_arg_lt_1) simp
  show "wheeler_z0 1 1000 1 1 =
     Inr (Fin ((376.730313668 / (2 * pi * sqrt (2 * (1 + 1))))
          * ln (wheeler_arg 1 ?a)))"
    using w pos by (intro wheeler_z0_value) simp_all
  have "ln (wheeler_arg 1 ?a) < 0" using pos lt by simp
  then show "(376.730313668 / (2 * pi * sqrt (2 * (1 + 1))))
          * ln (wheeler_arg 1 ?a) < 0"
    using wheeler_factor_pos [of 1] by (intro mult_pos_neg) simp_all
qed

text \<open>
  For a trace that is at most ten times as thick as the substrate is high
  (\<open>t \<le> 10 * h\<close>), and positive \<open>w\<close>, \<open>t\<close>, \<open>h\<close> and \<open>er \<ge> 1\<close>, the
  impedance is a positive number, and every larger width has a strictly smaller
  impedance.
\<close>

lemma wheeler_z0_exact_decreasing:
  assumes "0 < w" and "0 < t" and "0 < h" and "1 \<le> er" and "t \<le> 10 * h"
  shows "\<exists>z. wheeler_z0 w t er h = Inr (Fin z) \<and> 0 < z \<and>
           (\<forall>w'. w < w' \<longrightarrow> (\<exists>z'. wheeler_z0 w' t er h = Inr (Fin z') \<and> z' < z))"
proof -
  have er: "0 < er" using assms(4) by simp
  have d: "0 < (w / t) + (11 / 10)" using assms by (simp add: add_pos_pos)
  have p: "0 < wheeler_weff w t er h"
    using wheeler_weff_ge [of t h w er] assms er by simp
  note v = wheeler_z0_of_pos_weff [OF er assms(3) _ _ p]
  have "\<exists>z'. wheeler_z0 w' t er h = Inr (Fin z') \<and> z' <
      (376.730313668 / (2 * pi * sqrt (2 * (1 + er))))
        * ln (wheeler_arg er (4 * h / wheeler_weff w t er h))" if "w < w'" for w'
  proof -
    have d': "0 < (w' / t) + (11 / 10)" using assms that by (simp add: add_pos_pos)
    have lt: "wheeler_weff w t er h < wheeler_weff w' t er h"
      using assms(2,3) er d that by (rule wheeler_weff_strict_mono)
    then have p': "0 < wheeler_weff w' t er h" using p by simp
    have "wheeler_z0 w' t er h =
           Inr (Fin ((376.730313668 / (2 * pi * sqrt (2 * (1 + er))))
                * ln (wheeler_arg er (4 * h / wheeler_weff w' t er h))))"
      using er assms(3) _ _ p' by (rule wheeler_z0_of_pos_weff(1)) (use assms d' in simp_all)
    then show ?thesis
      using wheeler_z0_decreasing_weff [OF er assms(3) p lt] by simp
  qed
  then show ?thesis using v assms d by auto
qed

section \<open>Properties of wheeler_z0_width\<close>

subsection \<open>Comparisons of floats\<close>

lemma np_greater_Fin [simp]: "np_greater (Fin x) (Fin y) \<longleftrightarrow> y < x"
  by (simp add: np_greater_def)





lemma loop_exit_iff:
  "\<not> np_greater (np_absolute (np_sub z (Fin z0))) (Fin tol) \<longleftrightarrow>
     z = NaN \<or> (\<exists>x. z = Fin x \<and> \<bar>x - z0\<bar> \<le> tol)"
  by (cases z) (auto simp: np_sub_def np_greater_def)


subsection \<open>Rules for the three loops\<close>

text \<open>
  A loop that returns has kept every invariant of its body, and its condition is false
  at the state it returns. The rules follow from the fixed-point induction of the
  partial functions.
\<close>

lemma low_loop_rule:
  assumes run: "low_loop z0 t er h wl zl = Some (Inr (wl', zl'))"
    and init: "I wl zl"
    and step: "\<And>wl zl z. I wl zl \<Longrightarrow> np_less zl (Fin z0)
                 \<Longrightarrow> wheeler_z0 (wl / 10) t er h = Inr z \<Longrightarrow> I (wl / 10) z"
  shows "I wl' zl' \<and> \<not> np_less zl' (Fin z0)"
proof -
  have "z0' = z0 \<and> t' = t \<and> er' = er \<and> h' = h \<longrightarrow>
          (\<forall>a b. y = Inr (a, b) \<longrightarrow> I wl zl \<longrightarrow> I a b \<and> \<not> np_less b (Fin z0))"
    if "low_loop z0' t' er' h' wl zl = Some y" for z0' t' er' h' y
    using that
  proof (induct z0' t' er' h' wl zl y rule: low_loop.raw_induct [rotated, consumes 1])
    case (1 f z0' t' er' h' wl zl y)
    show ?case
    proof (intro impI allI, elim conjE)
      fix a b
      assume eq: "z0' = z0" "t' = t" "er' = er" "h' = h" and y: "y = Inr (a, b)"
        and i: "I wl zl"
      show "I a b \<and> \<not> np_less b (Fin z0)"
      proof (cases "np_less zl (Fin z0)")
        case False
        with 1(2) y eq i show ?thesis by simp
      next
        case True
        with 1(2) y eq obtain z where z: "wheeler_z0 (wl / 10) t er h = Inr z"
          and f: "f z0 t er h (wl / 10) z = Some (Inr (a, b))"
          by (auto split: sum.splits)
        from step [OF i True z] 1(1) [OF f] show ?thesis by simp
      qed
    qed
  qed
  from this [OF run] init show ?thesis by simp
qed

lemma high_loop_rule:
  assumes run: "high_loop z0 t er h wh zh = Some (Inr (wh', zh'))"
    and init: "I wh zh"
    and step: "\<And>wh zh z. I wh zh \<Longrightarrow> np_greater zh (Fin z0)
                 \<Longrightarrow> wheeler_z0 (wh * 10) t er h = Inr z \<Longrightarrow> I (wh * 10) z"
  shows "I wh' zh' \<and> \<not> np_greater zh' (Fin z0)"
proof -
  have "z0' = z0 \<and> t' = t \<and> er' = er \<and> h' = h \<longrightarrow>
          (\<forall>a b. y = Inr (a, b) \<longrightarrow> I wh zh \<longrightarrow> I a b \<and> \<not> np_greater b (Fin z0))"
    if "high_loop z0' t' er' h' wh zh = Some y" for z0' t' er' h' y
    using that
  proof (induct z0' t' er' h' wh zh y rule: high_loop.raw_induct [rotated, consumes 1])
    case (1 f z0' t' er' h' wh zh y)
    show ?case
    proof (intro impI allI, elim conjE)
      fix a b
      assume eq: "z0' = z0" "t' = t" "er' = er" "h' = h" and y: "y = Inr (a, b)"
        and i: "I wh zh"
      show "I a b \<and> \<not> np_greater b (Fin z0)"
      proof (cases "np_greater zh (Fin z0)")
        case False
        with 1(2) y eq i show ?thesis by simp
      next
        case True
        with 1(2) y eq obtain z where z: "wheeler_z0 (wh * 10) t er h = Inr z"
          and f: "f z0 t er h (wh * 10) z = Some (Inr (a, b))"
          by (auto split: sum.splits)
        from step [OF i True z] 1(1) [OF f] show ?thesis by simp
      qed
    qed
  qed
  from this [OF run] init show ?thesis by simp
qed


subsection \<open>The interpolated width\<close>






subsection \<open>The bracket\<close>






text \<open>The state that the bracketing loops leave.\<close>

lemma bracket_result:
  assumes "bracket z0 t er h guess = Some (Inr s)"
  shows "width s = Fin guess \<and> wheeler_z0 guess t er h = Inr (zm s) \<and>
         bracket_inv z0 t er h s \<and>
         (\<exists>wl wh. wlow s = Fin wl \<and> whigh s = Fin wh \<and>
            (0 \<le> guess \<longrightarrow> wl \<le> guess \<and> guess \<le> wh))"
proof -
  from assms obtain z zl wl zl' zh wh zh' where
    z: "wheeler_z0 guess t er h = Inr z"
    and zl: "wheeler_z0 (guess / 10) t er h = Inr zl"
    and l: "low_loop z0 t er h (guess / 10) zl = Some (Inr (wl, zl'))"
    and zh: "wheeler_z0 (guess * 10) t er h = Inr zh"
    and hl: "high_loop z0 t er h (guess * 10) zh = Some (Inr (wh, zh'))"
    and s: "s = \<lparr>width = Fin guess, zm = z, wlow = Fin wl, zlow = zl',
                 whigh = Fin wh, zhigh = zh'\<rparr>"
    by (auto simp: bracket_def split: sum.splits option.splits prod.splits)
  let ?I1 = "\<lambda>w y. wheeler_z0 w t er h = Inr y \<and> (0 \<le> guess \<longrightarrow> 0 \<le> w \<and> w \<le> guess)"
  have 1: "?I1 wl zl' \<and> \<not> np_less zl' (Fin z0)"
    by (rule low_loop_rule [OF l, where I = ?I1]) (use zl in auto)
  let ?I2 = "\<lambda>w y. wheeler_z0 w t er h = Inr y \<and> (0 \<le> guess \<longrightarrow> guess \<le> w)"
  have 2: "?I2 wh zh' \<and> \<not> np_greater zh' (Fin z0)"
    by (rule high_loop_rule [OF hl, where I = ?I2]) (use zh in auto)
  show ?thesis
    using 1 2 z s by (auto simp: bracket_inv_def intro: wheeler_z0_f64_of_float)
qed







text \<open>One unfolding of each loop.\<close>

lemma low_loop_exit:
  "\<not> np_less zl (Fin z0) \<Longrightarrow> low_loop z0 t er h wl zl = Some (Inr (wl, zl))"
  by (subst low_loop.simps) simp


lemma high_loop_exit:
  "\<not> np_greater zh (Fin z0) \<Longrightarrow> high_loop z0 t er h wh zh = Some (Inr (wh, zh))"
  by (subst high_loop.simps) simp




text \<open>The state after the bracketing loops, from the results of the two loops.\<close>

lemma bracket_eq:
  assumes "wheeler_z0 guess t er h = Inr z"
    and "wheeler_z0 (guess / 10) t er h = Inr zl"
    and "low_loop z0 t er h (guess / 10) zl = Some (Inr (wl, zl'))"
    and "wheeler_z0 (guess * 10) t er h = Inr zh"
    and "high_loop z0 t er h (guess * 10) zh = Some (Inr (wh, zh'))"
  shows "bracket z0 t er h guess =
           Some (Inr \<lparr>width = Fin guess, zm = z, wlow = Fin wl, zlow = zl',
                      whigh = Fin wh, zhigh = zh'\<rparr>)"
  using assms by (simp add: bracket_def)


text \<open>
  Claim C9. If the impedance of the guess is within tol of the target and the two
  bracketing loops return, then the condition of the interpolation loop is false at the
  state they leave, the loop returns without running its body, and wheeler_z0_width
  returns the guess. The bracketing loops return also when an impedance they compute is
  \<open>inf\<close> or \<open>nan\<close>.
\<close>

theorem wheeler_z0_width_guess_in_tol:
  assumes "wheeler_z0 guess t er h = Inr (Fin zg)" and "\<bar>zg - z0\<bar> \<le> tol"
    and "bracket z0 t er h guess = Some (Inr s)"
  shows "wheeler_z0_width z0 t er h tol guess = Some (Inr (Fin guess)) \<and>
         \<not> np_greater (np_absolute (np_sub (zm s) (Fin z0))) (Fin tol) \<and>
         interp_loop z0 t er h tol s = Some (Inr (Fin guess))"
proof -
  have w: "width s = Fin guess" and "wheeler_z0 guess t er h = Inr (zm s)"
    using bracket_result [OF assms(3)] by simp_all
  then have z: "zm s = Fin zg" using assms(1) by simp
  have g: "\<not> np_greater (np_absolute (np_sub (zm s) (Fin z0))) (Fin tol)"
    using z assms(2) by (simp add: loop_exit_iff)
  then have "interp_loop z0 t er h tol s = Some (Inr (Fin guess))"
    using w by (subst interp_loop.simps) simp
  then show ?thesis using g assms(3) by (simp add: wheeler_z0_width_def)
qed


section \<open>A microstrip on FR4\<close>

text \<open>
  A 35 um trace on a 1.6 mm substrate with \<open>er = 4.4\<close>, lengths in millimetres,
  and a guess of 3 mm, where the impedance is about 50 ohm.
\<close>

lemma fr4_weff_log: "weff_log w 0.035 1.6 \<le> 7"
proof (rule weff_log_le)
  have "4 * exp 1 * 1.6 / 0.035 \<le> 4 * 3 * 1.6 / (0.035::real)"
    using exp_le by simp
  also have "\<dots> \<le> 1000" by simp
  finally show "4 * exp 1 * 1.6 / 0.035 \<le> exp (7::real)" using exp_7_lower by linarith
qed simp_all

lemma fr4_coeff: "0.035 * ((1 + (1 / 4.4)) / (2 * pi)) \<le> (0.007::real)"
  using pi_lower by (simp add: field_simps)

lemma fr4_weff:
  assumes "0 \<le> w"
  shows "w \<le> wheeler_weff w 0.035 4.4 1.6" and "wheeler_weff w 0.035 4.4 1.6 \<le> w + 0.049"
proof -
  show "w \<le> wheeler_weff w 0.035 4.4 1.6"
    using assms by (intro wheeler_weff_ge) simp_all
  have "wheeler_weff w 0.035 4.4 1.6 \<le> w + 0.007 * 7"
    using assms fr4_weff_log fr4_coeff by (intro wheeler_weff_le) simp_all
  then show "wheeler_weff w 0.035 4.4 1.6 \<le> w + 0.049" by simp
qed

lemma fr4_factor:
  "18.19 \<le> 376.730313668 / (2 * pi * sqrt (2 * (1 + 4.4)))"
  "376.730313668 / (2 * pi * sqrt (2 * (1 + 4.4))) \<le> (18.26::real)"
proof -
  have s1: "3.286 \<le> sqrt (2 * (1 + 4.4))"
    by (rule real_le_rsqrt) (simp add: power2_eq_square)
  have s2: "sqrt (2 * (1 + 4.4)) \<le> 3.2864"
    by (rule real_le_lsqrt) (simp_all add: power2_eq_square)
  have u: "2 * pi * sqrt (2 * (1 + 4.4)) \<le> 2 * 3.15 * 3.2864"
    using pi_upper s2 by (intro mult_mono) simp_all
  have l: "2 * 3.14 * 3.286 \<le> 2 * pi * sqrt (2 * (1 + 4.4))"
    using pi_lower s1 by (intro mult_mono) simp_all
  have p: "0 < 2 * pi * sqrt (2 * (1 + 4.4))" by simp
  have "376.730313668 / (2 * 3.15 * 3.2864) \<le> 376.730313668 / (2 * pi * sqrt (2 * (1 + 4.4)))"
    using u p by (intro divide_left_mono mult_pos_pos) simp_all
  then show "18.19 \<le> 376.730313668 / (2 * pi * sqrt (2 * (1 + 4.4)))" by simp
  have "376.730313668 / (2 * pi * sqrt (2 * (1 + 4.4))) \<le> 376.730313668 / (2 * 3.14 * 3.286)"
    using l p by (intro divide_left_mono mult_pos_pos) simp_all
  then show "376.730313668 / (2 * pi * sqrt (2 * (1 + 4.4))) \<le> (18.26::real)" by simp
qed

lemma fr4_rad:
  "(((14 + (8 / 4.4)) / 11) * a)\<^sup>2 + 9.8596 * ((1 + (1 / 4.4)) / 2) \<le> wheeler_rad 4.4 a"
  "wheeler_rad 4.4 a \<le> (((14 + (8 / 4.4)) / 11) * a)\<^sup>2 + 9.9225 * ((1 + (1 / 4.4)) / 2)"
proof -
  have c: "(0::real) \<le> (1 + (1 / 4.4)) / 2" by simp
  have "9.8596 * ((1 + (1 / 4.4)) / 2) \<le> pi\<^sup>2 * ((1 + (1 / 4.4)) / 2)"
    using pi_squared_bounds(1) c by (rule mult_right_mono)
  then show "(((14 + (8 / 4.4)) / 11) * a)\<^sup>2 + 9.8596 * ((1 + (1 / 4.4)) / 2) \<le> wheeler_rad 4.4 a"
    unfolding wheeler_rad_def Let_def by linarith
  have "pi\<^sup>2 * ((1 + (1 / 4.4)) / 2) \<le> 9.9225 * ((1 + (1 / 4.4)) / 2)"
    using pi_squared_bounds(2) c by (rule mult_right_mono)
  then show "wheeler_rad 4.4 a \<le> (((14 + (8 / 4.4)) / 11) * a)\<^sup>2 + 9.9225 * ((1 + (1 / 4.4)) / 2)"
    unfolding wheeler_rad_def Let_def by linarith
qed

lemma fr4_z_guess:
  "\<exists>z. wheeler_z0 3 0.035 4.4 1.6 = Inr (Fin z) \<and> 49 \<le> z \<and> z \<le> 51"
proof -
  let ?K = "376.730313668 / (2 * pi * sqrt (2 * (1 + 4.4)))"
  obtain z where z: "wheeler_z0 3 0.035 4.4 1.6 = Inr (Fin z)"
    and lo: "?K * ln (wheeler_arg 4.4 (4 * 1.6 / 3.049)) \<le> z"
    and hi: "z \<le> ?K * ln (wheeler_arg 4.4 (4 * 1.6 / 3))"
    using wheeler_z0_between [of "4.4" "1.6" "0.035" 3 3 "3.049"] fr4_weff [of 3]
    by auto
  have "(3.89::real)\<^sup>2 \<le> wheeler_rad 4.4 (4 * 1.6 / 3.049)"
    using fr4_rad(1) [of "4 * 1.6 / 3.049"] by (simp add: power2_eq_square)
  then have "1 + (4 * 1.6 / 3.049) * ((((14 + (8 / 4.4)) / 11) * (4 * 1.6 / 3.049)) + 3.89)
      \<le> wheeler_arg 4.4 (4 * 1.6 / 3.049)"
    by (intro wheeler_arg_lower) simp_all
  then have "exp 2.7 \<le> wheeler_arg 4.4 (4 * 1.6 / 3.049)"
    using exp_270_upper by simp
  then have l1: "2.7 \<le> ln (wheeler_arg 4.4 (4 * 1.6 / 3.049))"
    by (rule ln_ge_of_exp_le)
  have "18.19 * 2.7 \<le> ?K * ln (wheeler_arg 4.4 (4 * 1.6 / 3.049))"
    using fr4_factor(1) l1 by (intro mult_mono) simp_all
  then have a: "49 \<le> z" using lo by simp
  have "wheeler_rad 4.4 (4 * 1.6 / 3) \<le> (3.94::real)\<^sup>2"
    using fr4_rad(2) [of "4 * 1.6 / 3"] by (simp add: power2_eq_square)
  then have "wheeler_arg 4.4 (4 * 1.6 / 3)
      \<le> 1 + (4 * 1.6 / 3) * ((((14 + (8 / 4.4)) / 11) * (4 * 1.6 / 3)) + 3.94)"
    by (intro wheeler_arg_upper) simp_all
  then have "wheeler_arg 4.4 (4 * 1.6 / 3) \<le> exp 2.79"
    using exp_279_lower by simp
  moreover have p: "0 < wheeler_arg 4.4 (4 * 1.6 / 3)"
    using wheeler_arg_gt_1 [of "4.4" "4 * 1.6 / 3"] by simp
  ultimately have l2: "ln (wheeler_arg 4.4 (4 * 1.6 / 3)) \<le> 2.79"
    by (intro ln_le_of_le_exp)
  have "0 \<le> ln (wheeler_arg 4.4 (4 * 1.6 / 3))"
    using wheeler_arg_gt_1 [of "4.4" "4 * 1.6 / 3"] by simp
  then have "?K * ln (wheeler_arg 4.4 (4 * 1.6 / 3)) \<le> 18.26 * 2.79"
    using fr4_factor(2) l2 by (intro mult_mono) simp_all
  then have b: "z \<le> 51" using hi by simp
  from z a b show ?thesis by simp
qed

lemma fr4_z_low:
  "\<exists>z. wheeler_z0 (3 / 10) 0.035 4.4 1.6 = Inr (Fin z) \<and> 50 \<le> z \<and> z \<le> 135"
proof -
  let ?K = "376.730313668 / (2 * pi * sqrt (2 * (1 + 4.4)))"
  obtain z where z: "wheeler_z0 (3 / 10) 0.035 4.4 1.6 = Inr (Fin z)"
    and lo: "?K * ln (wheeler_arg 4.4 (4 * 1.6 / 0.349)) \<le> z"
    and hi: "z \<le> ?K * ln (wheeler_arg 4.4 (4 * 1.6 / (3 / 10)))"
    using wheeler_z0_between [of "4.4" "1.6" "0.035" "3 / 10" "3 / 10" "0.349"]
      fr4_weff [of "3 / 10"]
    by auto
  have "(0::real)\<^sup>2 \<le> wheeler_rad 4.4 (4 * 1.6 / 0.349)"
    using wheeler_rad_pos [of "4.4" "4 * 1.6 / 0.349"] by simp
  then have "1 + (4 * 1.6 / 0.349) * ((((14 + (8 / 4.4)) / 11) * (4 * 1.6 / 0.349)) + 0)
      \<le> wheeler_arg 4.4 (4 * 1.6 / 0.349)"
    by (intro wheeler_arg_lower) simp_all
  then have "exp 3 \<le> wheeler_arg 4.4 (4 * 1.6 / 0.349)"
    using exp_3_upper by simp
  then have l1: "3 \<le> ln (wheeler_arg 4.4 (4 * 1.6 / 0.349))"
    by (rule ln_ge_of_exp_le)
  have "18.19 * 3 \<le> ?K * ln (wheeler_arg 4.4 (4 * 1.6 / 0.349))"
    using fr4_factor(1) l1 by (intro mult_mono) simp_all
  then have a: "50 \<le> z" using lo by simp
  have "wheeler_rad 4.4 (4 * 1.6 / (3 / 10)) \<le> (30.8::real)\<^sup>2"
    using fr4_rad(2) [of "4 * 1.6 / (3 / 10)"] by (simp add: power2_eq_square)
  then have "wheeler_arg 4.4 (4 * 1.6 / (3 / 10))
      \<le> 1 + (4 * 1.6 / (3 / 10)) * ((((14 + (8 / 4.4)) / 11) * (4 * 1.6 / (3 / 10))) + 30.8)"
    by (intro wheeler_arg_upper) simp_all
  then have "wheeler_arg 4.4 (4 * 1.6 / (3 / 10)) \<le> exp 7.2"
    using exp_720_lower by simp
  moreover have p: "0 < wheeler_arg 4.4 (4 * 1.6 / (3 / 10))"
    using wheeler_arg_gt_1 [of "4.4" "4 * 1.6 / (3 / 10)"] by simp
  ultimately have l2: "ln (wheeler_arg 4.4 (4 * 1.6 / (3 / 10))) \<le> 7.2"
    by (intro ln_le_of_le_exp)
  have "0 \<le> ln (wheeler_arg 4.4 (4 * 1.6 / (3 / 10)))"
    using wheeler_arg_gt_1 [of "4.4" "4 * 1.6 / (3 / 10)"] by simp
  then have "?K * ln (wheeler_arg 4.4 (4 * 1.6 / (3 / 10))) \<le> 18.26 * 7.2"
    using fr4_factor(2) l2 by (intro mult_mono) simp_all
  then have b: "z \<le> 135" using hi by simp
  from z a b show ?thesis by simp
qed


lemma fr4_z_far:
  "\<exists>z. wheeler_z0 (3 * 10) 0.035 4.4 1.6 = Inr (Fin z) \<and> 5 < z \<and> z \<le> 10"
proof -
  let ?K = "376.730313668 / (2 * pi * sqrt (2 * (1 + 4.4)))"
  obtain z where z: "wheeler_z0 (3 * 10) 0.035 4.4 1.6 = Inr (Fin z)"
    and lo: "?K * ln (wheeler_arg 4.4 (4 * 1.6 / 30.049)) \<le> z"
    and hi: "z \<le> ?K * ln (wheeler_arg 4.4 (4 * 1.6 / 30))"
    using wheeler_z0_between [of "4.4" "1.6" "0.035" "3 * 10" 30 "30.049"]
      fr4_weff [of "3 * 10"]
    by auto
  have "(2.47::real)\<^sup>2 \<le> wheeler_rad 4.4 (4 * 1.6 / 30.049)"
    using fr4_rad(1) [of "4 * 1.6 / 30.049"] by (simp add: power2_eq_square)
  then have "1 + (4 * 1.6 / 30.049) * ((((14 + (8 / 4.4)) / 11) * (4 * 1.6 / 30.049)) + 2.47)
      \<le> wheeler_arg 4.4 (4 * 1.6 / 30.049)"
    by (intro wheeler_arg_lower) simp_all
  then have "exp 0.3 \<le> wheeler_arg 4.4 (4 * 1.6 / 30.049)"
    using exp_030_upper by simp
  then have l1: "0.3 \<le> ln (wheeler_arg 4.4 (4 * 1.6 / 30.049))"
    by (rule ln_ge_of_exp_le)
  have "18.19 * 0.3 \<le> ?K * ln (wheeler_arg 4.4 (4 * 1.6 / 30.049))"
    using fr4_factor(1) l1 by (intro mult_mono) simp_all
  then have a: "5 < z" using lo by simp
  have "wheeler_rad 4.4 (4 * 1.6 / 30) \<le> (2.5::real)\<^sup>2"
    using fr4_rad(2) [of "4 * 1.6 / 30"] by (simp add: power2_eq_square)
  then have "wheeler_arg 4.4 (4 * 1.6 / 30)
      \<le> 1 + (4 * 1.6 / 30) * ((((14 + (8 / 4.4)) / 11) * (4 * 1.6 / 30)) + 2.5)"
    by (intro wheeler_arg_upper) simp_all
  then have "wheeler_arg 4.4 (4 * 1.6 / 30) \<le> exp 0.54"
    using exp_054_lower by simp
  moreover have p: "0 < wheeler_arg 4.4 (4 * 1.6 / 30)"
    using wheeler_arg_gt_1 [of "4.4" "4 * 1.6 / 30"] by simp
  ultimately have l2: "ln (wheeler_arg 4.4 (4 * 1.6 / 30)) \<le> 0.54"
    by (intro ln_le_of_le_exp)
  have "0 \<le> ln (wheeler_arg 4.4 (4 * 1.6 / 30))"
    using wheeler_arg_gt_1 [of "4.4" "4 * 1.6 / 30"] by simp
  then have "?K * ln (wheeler_arg 4.4 (4 * 1.6 / 30)) \<le> 18.26 * 0.54"
    using fr4_factor(2) l2 by (intro mult_mono) simp_all
  then have "z \<le> 10" using hi by simp
  with a z show ?thesis by simp
qed



text \<open>The state after the bracketing loops, for a target between 10 and 50 ohm and a
  guess of 3 mm: neither loop runs its body.\<close>

lemma fr4_bracket:
  assumes "10 \<le> z0" "z0 \<le> 50"
  shows "\<exists>zg zl zh. bracket z0 0.035 4.4 1.6 3 =
      Some (Inr \<lparr>width = Fin 3, zm = Fin zg, wlow = Fin (3 / 10), zlow = Fin zl,
                 whigh = Fin (3 * 10), zhigh = Fin zh\<rparr>)
    \<and> wheeler_z0 3 0.035 4.4 1.6 = Inr (Fin zg) \<and> 49 \<le> zg \<and> zg \<le> 51
    \<and> 50 \<le> zl \<and> 0 < zh \<and> zh \<le> 10"
proof -
  from fr4_z_guess obtain zg
    where g: "wheeler_z0 3 0.035 4.4 1.6 = Inr (Fin zg)" "49 \<le> zg" "zg \<le> 51"
    by blast
  from fr4_z_low obtain zl
    where l: "wheeler_z0 (3 / 10) 0.035 4.4 1.6 = Inr (Fin zl)" "50 \<le> zl"
    by blast
  from fr4_z_far obtain zh
    where h: "wheeler_z0 (3 * 10) 0.035 4.4 1.6 = Inr (Fin zh)" "5 < zh" "zh \<le> 10"
    by blast
  have 1: "low_loop z0 0.035 4.4 1.6 (3 / 10) (Fin zl) = Some (Inr (3 / 10, Fin zl))"
    using l(2) assms by (intro low_loop_exit) simp
  have 2: "high_loop z0 0.035 4.4 1.6 (3 * 10) (Fin zh) = Some (Inr (3 * 10, Fin zh))"
    using h(3) assms by (intro high_loop_exit) simp
  note bracket_eq [OF g(1) l(1) 1 h(1) 2]
  then show ?thesis using g l(2) h(2,3) by (intro exI [of _ zg] exI [of _ zl] exI [of _ zh]) simp
qed




text \<open>
  Witness of C9: a target of 50 ohm with a tolerance of 1 ohm.
\<close>

theorem wheeler_z0_width_guess_in_tol_witness:
  "\<exists>zg s. wheeler_z0 3 0.035 4.4 1.6 = Inr (Fin zg) \<and> \<bar>zg - 50\<bar> \<le> 1 \<and>
     bracket 50 0.035 4.4 1.6 3 = Some (Inr s) \<and>
     wheeler_z0_width 50 0.035 4.4 1.6 1 3 = Some (Inr (Fin 3)) \<and>
     \<not> np_greater (np_absolute (np_sub (zm s) (Fin 50))) (Fin 1) \<and>
     interp_loop 50 0.035 4.4 1.6 1 s = Some (Inr (Fin 3))"
proof -
  obtain zg s where b: "bracket 50 0.035 4.4 1.6 3 = Some (Inr s)"
    and g: "wheeler_z0 3 0.035 4.4 1.6 = Inr (Fin zg)" "49 \<le> zg" "zg \<le> 51"
    using fr4_bracket [of 50] by auto
  have t: "\<bar>zg - 50\<bar> \<le> 1" using g(2,3) by simp
  from wheeler_z0_width_guess_in_tol [OF g(1) t b] g(1) t b show ?thesis by blast
qed




section \<open>A negative guess\<close>









section \<open>A trace twenty times thicker than the substrate is high\<close>








end
